theory Spec2Isabelle
  imports Main
begin

section \<open>The store: tables of the SecureShare schema\<close>

text \<open>
  The tables are those of the migrations: \<^verbatim>\<open>files\<close>, \<^verbatim>\<open>share_links\<close>,
  \<^verbatim>\<open>download_logs\<close> and \<^verbatim>\<open>download_attempts\<close>. A table is the list of its rows.
  A \<^verbatim>\<open>uuid\<close> is a number, a \<^verbatim>\<open>timestamptz\<close> is an integer count of microseconds,
  an \<^verbatim>\<open>inet\<close> value is its canonical text, and a nullable column is an \<open>option\<close>.
  An \<^verbatim>\<open>INTEGER\<close> column holds an integer; the one place where the code computes
  with such a column, the increment of \<^verbatim>\<open>current_downloads\<close>, raises when the
  result leaves the range of the type.
\<close>

type_synonym uuid = nat
type_synonym timestamptz = int
type_synonym inet = string

record file_row =
  f_id :: uuid
  user_id :: uuid
  filename :: string
  original_filename :: string
  file_size :: int
  content_type :: string
  storage_path :: string
  is_encrypted :: bool
  f_created_at :: timestamptz
  f_updated_at :: timestamptz

record share_link =
  sl_id :: uuid
  file_id :: uuid
  token :: string
  expires_at :: "timestamptz option"
  max_downloads :: "int option"
  current_downloads :: int
  password_hash :: "string option"
  is_active :: bool
  sl_created_at :: timestamptz
  sl_updated_at :: timestamptz

record download_log =
  dl_id :: uuid
  share_link_id :: uuid
  dl_ip_address :: "inet option"
  user_agent :: "string option"
  downloaded_at :: timestamptz

record download_attempt =
  da_id :: uuid
  da_ip_address :: inet
  da_token :: string
  attempted_at :: timestamptz
  success :: bool

record database =
  files :: "file_row list"
  share_links :: "share_link list"
  download_logs :: "download_log list"
  download_attempts :: "download_attempt list"

text \<open>The SQL literal \<^verbatim>\<open>interval '1 hour'\<close>, in microseconds.\<close>

definition interval_1_hour :: int where
  "interval_1_hour = 3600000000"

text \<open>The largest value of the SQL type \<^verbatim>\<open>INTEGER\<close>.\<close>

definition int4_max :: int where
  "int4_max = 2147483647"

section \<open>The consume function \<^verbatim>\<open>log_download(link_token, user_agent_text, ip_addr)\<close>\<close>

text \<open>
  The exceptions that leave the function: the three of its \<^verbatim>\<open>RAISE EXCEPTION\<close>
  statements, and the error of the \<^verbatim>\<open>INTEGER\<close> addition in its \<^verbatim>\<open>UPDATE\<close>.
  \<open>message\<close> is the text a caller of the function receives.
\<close>

datatype pg_exception =
  Ip_rate_limit | Token_failure_limit | Invalid_link | Integer_out_of_range

fun message :: "pg_exception \<Rightarrow> string" where
  "message Ip_rate_limit =
     ''Rate limit exceeded. Too many download attempts from this IP address.''"
| "message Token_failure_limit =
     ''Too many failed attempts for this link. Please try again later.''"
| "message Invalid_link = ''Invalid or expired share link''"
| "message Integer_out_of_range = ''integer out of range''"

text \<open>
  \<^verbatim>\<open>SELECT COUNT(*) FROM download_attempts WHERE ip_address = ip_addr
     AND attempted_at > now() - interval '1 hour'\<close>
\<close>

definition recent_attempts :: "database \<Rightarrow> timestamptz \<Rightarrow> inet \<Rightarrow> nat" where
  "recent_attempts db now ip_addr =
     length (filter (\<lambda>a. da_ip_address a = ip_addr \<and> attempted_at a > now - interval_1_hour)
               (download_attempts db))"

text \<open>
  \<^verbatim>\<open>SELECT COUNT(*) FROM download_attempts WHERE token = link_token
     AND success = false AND attempted_at > now() - interval '1 hour'\<close>
\<close>

definition recent_failures :: "database \<Rightarrow> timestamptz \<Rightarrow> string \<Rightarrow> nat" where
  "recent_failures db now link_token =
     length (filter (\<lambda>a. da_token a = link_token \<and> success a = False
                          \<and> attempted_at a > now - interval_1_hour)
               (download_attempts db))"

text \<open>
  The \<^verbatim>\<open>WHERE\<close> clause shared by \<^verbatim>\<open>log_download\<close> and
  \<^verbatim>\<open>get_share_link_by_token\<close>:
  \<^verbatim>\<open>token = link_token AND is_active = true
     AND (expires_at IS NULL OR expires_at > now())
     AND (max_downloads IS NULL OR current_downloads < max_downloads)\<close>
\<close>

definition link_matches :: "timestamptz \<Rightarrow> string \<Rightarrow> share_link \<Rightarrow> bool" where
  "link_matches now link_token r =
     (token r = link_token \<and> is_active r = True
      \<and> (case expires_at r of None \<Rightarrow> True | Some e \<Rightarrow> e > now)
      \<and> (case max_downloads r of None \<Rightarrow> True | Some m \<Rightarrow> current_downloads r < m))"

text \<open>
  \<^verbatim>\<open>SELECT id INTO link_id FROM share_links WHERE ...\<close>: the first row found, or
  \<^verbatim>\<open>NULL\<close> when there is none.
\<close>

definition select_link_id :: "database \<Rightarrow> timestamptz \<Rightarrow> string \<Rightarrow> uuid option" where
  "select_link_id db now link_token =
     (case filter (link_matches now link_token) (share_links db) of
        [] \<Rightarrow> None
      | r # _ \<Rightarrow> Some (sl_id r))"

text \<open>
  \<^verbatim>\<open>INSERT INTO download_attempts (ip_address, token, success) VALUES (...)\<close>; the
  columns \<^verbatim>\<open>id\<close> and \<^verbatim>\<open>attempted_at\<close> take their defaults
  \<^verbatim>\<open>gen_random_uuid()\<close> (here the argument \<open>new_id\<close>) and \<^verbatim>\<open>now()\<close>.
\<close>

definition insert_attempt ::
  "uuid \<Rightarrow> timestamptz \<Rightarrow> inet \<Rightarrow> string \<Rightarrow> bool \<Rightarrow> database \<Rightarrow> database" where
  "insert_attempt new_id now ip_addr link_token ok db =
     db\<lparr>download_attempts := download_attempts db @
          [\<lparr>da_id = new_id, da_ip_address = ip_addr, da_token = link_token,
            attempted_at = now, success = ok\<rparr>]\<rparr>"

text \<open>
  \<^verbatim>\<open>INSERT INTO download_logs (share_link_id, user_agent, ip_address)
     VALUES (link_id, user_agent_text, ip_addr) RETURNING id\<close>
\<close>

definition insert_log ::
  "uuid \<Rightarrow> timestamptz \<Rightarrow> uuid \<Rightarrow> string option \<Rightarrow> inet option \<Rightarrow> database \<Rightarrow> database" where
  "insert_log new_id now link_id ua ip db =
     db\<lparr>download_logs := download_logs db @
          [\<lparr>dl_id = new_id, share_link_id = link_id, dl_ip_address = ip,
            user_agent = ua, downloaded_at = now\<rparr>]\<rparr>"

text \<open>
  \<^verbatim>\<open>UPDATE share_links SET current_downloads = current_downloads + 1 WHERE id = link_id\<close>,
  together with the trigger \<^verbatim>\<open>update_share_links_updated_at\<close>, which sets
  \<^verbatim>\<open>updated_at = now()\<close> on every updated row. The addition is that of the type
  \<^verbatim>\<open>INTEGER\<close>: where the sum would exceed the largest value of the type the
  statement fails with "integer out of range" (\<open>None\<close>) and updates nothing.
\<close>

definition increment_row :: "timestamptz \<Rightarrow> uuid \<Rightarrow> share_link \<Rightarrow> share_link" where
  "increment_row now link_id r =
     (if sl_id r = link_id
      then r\<lparr>current_downloads := current_downloads r + 1, sl_updated_at := now\<rparr>
      else r)"

definition increment_downloads :: "timestamptz \<Rightarrow> uuid \<Rightarrow> database \<Rightarrow> database option" where
  "increment_downloads now link_id db =
     (if list_ex (\<lambda>r. sl_id r = link_id \<and> current_downloads r + 1 > int4_max) (share_links db)
      then None
      else Some (db\<lparr>share_links := map (increment_row now link_id) (share_links db)\<rparr>))"

text \<open>
  The body of the function runs on a working copy of the store. It ends either by
  \<^verbatim>\<open>RETURN\<close> or by \<^verbatim>\<open>RAISE EXCEPTION\<close>; \<open>Raised\<close> keeps the working copy as
  it was when the exception was raised.

  The body is split where the reads end. \<open>log_download_reads\<close> is the two rate-limit
  counts and the lookup of the link (the statements up to the test of \<^verbatim>\<open>link_id\<close>);
  \<open>log_download_writes\<close> is the rest, given the \<^verbatim>\<open>link_id\<close> that was read.
\<close>

datatype 'a outcome = Raised pg_exception database | Returned 'a database

definition log_download_reads ::
  "database \<Rightarrow> timestamptz \<Rightarrow> string \<Rightarrow> inet \<Rightarrow> pg_exception + uuid option" where
  "log_download_reads db now link_token ip_addr =
     (if recent_attempts db now ip_addr \<ge> 20 then Inl Ip_rate_limit
      else if recent_failures db now link_token \<ge> 10 then Inl Token_failure_limit
      else Inr (select_link_id db now link_token))"

definition log_download_writes ::
  "database \<Rightarrow> timestamptz \<Rightarrow> uuid \<Rightarrow> uuid \<Rightarrow> string \<Rightarrow> string \<Rightarrow> inet \<Rightarrow> uuid option
     \<Rightarrow> uuid outcome" where
  "log_download_writes db now attempt_id log_id link_token user_agent_text ip_addr link_id =
     (case link_id of
        None \<Rightarrow>
          Raised Invalid_link (insert_attempt attempt_id now ip_addr link_token False db)
      | Some l \<Rightarrow>
          (let logged = insert_log log_id now l (Some user_agent_text) (Some ip_addr)
                          (insert_attempt attempt_id now ip_addr link_token True db)
           in case increment_downloads now l logged of
                None \<Rightarrow> Raised Integer_out_of_range logged
              | Some db' \<Rightarrow> Returned log_id db'))"

definition log_download_body ::
  "database \<Rightarrow> timestamptz \<Rightarrow> uuid \<Rightarrow> uuid \<Rightarrow> string \<Rightarrow> string \<Rightarrow> inet \<Rightarrow> uuid outcome" where
  "log_download_body db now attempt_id log_id link_token user_agent_text ip_addr =
     (case log_download_reads db now link_token ip_addr of
        Inl e \<Rightarrow> Raised e db
      | Inr link_id \<Rightarrow>
          log_download_writes db now attempt_id log_id link_token user_agent_text ip_addr
            link_id)"

text \<open>
  A call of the function is one transaction of the store: an exception that leaves the
  body undoes everything the body wrote, a return commits it.
\<close>

definition transaction :: "database \<Rightarrow> 'a outcome \<Rightarrow> (pg_exception + 'a) \<times> database" where
  "transaction db out =
     (case out of Raised e _ \<Rightarrow> (Inl e, db) | Returned v db' \<Rightarrow> (Inr v, db'))"

definition log_download ::
  "database \<Rightarrow> timestamptz \<Rightarrow> uuid \<Rightarrow> uuid \<Rightarrow> string \<Rightarrow> string \<Rightarrow> inet
     \<Rightarrow> (pg_exception + uuid) \<times> database" where
  "log_download db now attempt_id log_id link_token user_agent_text ip_addr =
     transaction db
       (log_download_body db now attempt_id log_id link_token user_agent_text ip_addr)"

text \<open>The two exceptions of the rate limiter.\<close>

definition rate_limited :: "pg_exception \<Rightarrow> bool" where
  "rate_limited e = (e = Ip_rate_limit \<or> e = Token_failure_limit)"

text \<open>
  The first version of the function, \<^verbatim>\<open>log_download(link_token, user_agent_text)\<close>.
  The three-argument version has another signature, so \<^verbatim>\<open>CREATE OR REPLACE\<close>
  leaves this one in the schema as an overload; it has no rate limit and writes no
  attempt.
\<close>

definition log_download_2_body ::
  "database \<Rightarrow> timestamptz \<Rightarrow> uuid \<Rightarrow> string \<Rightarrow> string \<Rightarrow> uuid outcome" where
  "log_download_2_body db now log_id link_token user_agent_text =
     (case select_link_id db now link_token of
        None \<Rightarrow> Raised Invalid_link db
      | Some l \<Rightarrow>
          (let logged = insert_log log_id now l (Some user_agent_text) None db
           in case increment_downloads now l logged of
                None \<Rightarrow> Raised Integer_out_of_range logged
              | Some db' \<Rightarrow> Returned log_id db'))"

definition log_download_2 ::
  "database \<Rightarrow> timestamptz \<Rightarrow> uuid \<Rightarrow> string \<Rightarrow> string
     \<Rightarrow> (pg_exception + uuid) \<times> database" where
  "log_download_2 db now log_id link_token user_agent_text =
     transaction db (log_download_2_body db now log_id link_token user_agent_text)"

section \<open>The lookup function \<^verbatim>\<open>get_share_link_by_token(link_token)\<close>\<close>

record link_view =
  v_id :: uuid
  v_file_id :: uuid
  v_token :: string
  v_expires_at :: "timestamptz option"
  v_max_downloads :: "int option"
  v_current_downloads :: int
  v_is_active :: bool
  v_filename :: string
  v_original_filename :: string
  v_file_size :: int
  v_storage_path :: string

definition view_of :: "share_link \<Rightarrow> file_row \<Rightarrow> link_view" where
  "view_of sl f =
     \<lparr>v_id = sl_id sl, v_file_id = file_id sl, v_token = token sl,
      v_expires_at = expires_at sl, v_max_downloads = max_downloads sl,
      v_current_downloads = current_downloads sl, v_is_active = is_active sl,
      v_filename = filename f, v_original_filename = original_filename f,
      v_file_size = file_size f, v_storage_path = storage_path f\<rparr>"

text \<open>
  \<^verbatim>\<open>SELECT ... FROM share_links sl JOIN files f ON f.id = sl.file_id
     WHERE sl.token = link_token AND sl.is_active = true AND ... LIMIT 1\<close>
\<close>

definition get_share_link_by_token ::
  "database \<Rightarrow> timestamptz \<Rightarrow> string \<Rightarrow> link_view list" where
  "get_share_link_by_token db now link_token =
     take 1
       (concat
         (map (\<lambda>sl. map (view_of sl) (filter (\<lambda>f. f_id f = file_id sl) (files db)))
           (filter (link_matches now link_token) (share_links db))))"

section \<open>Row-level security of \<^verbatim>\<open>share_links\<close>\<close>

text \<open>
  After the migrations the only \<^verbatim>\<open>SELECT\<close> policy left on \<^verbatim>\<open>share_links\<close> is
  "Users can view share links for their files" (the policy "Public can view active
  share links" is dropped by the migration that introduces the lookup function):
  \<^verbatim>\<open>EXISTS (SELECT 1 FROM files
     WHERE files.id = share_links.file_id AND files.user_id = auth.uid())\<close>.
  \<^verbatim>\<open>auth.uid()\<close> is \<^verbatim>\<open>NULL\<close> for a caller who is not signed in, and a comparison
  with \<^verbatim>\<open>NULL\<close> is not true.
\<close>

definition owns_file :: "database \<Rightarrow> uuid option \<Rightarrow> uuid \<Rightarrow> bool" where
  "owns_file db uid fid =
     (case uid of
        None \<Rightarrow> False
      | Some u \<Rightarrow> list_ex (\<lambda>f. f_id f = fid \<and> user_id f = u) (files db))"

definition select_share_links :: "database \<Rightarrow> uuid option \<Rightarrow> share_link list" where
  "select_share_links db uid = filter (\<lambda>sl. owns_file db uid (file_id sl)) (share_links db)"

section \<open>The edge function \<^verbatim>\<open>download-file\<close>\<close>

text \<open>
  What the handler reads of a request: the method, the result of
  \<^verbatim>\<open>const { token } = await req.json()\<close>, and three headers.

  \<^verbatim>\<open>req.json()\<close> throws on a body that is not JSON (\<open>Unparsable\<close>), and the
  destructuring throws on the body \<^verbatim>\<open>null\<close> (\<open>Null_body\<close>). Otherwise \<open>token\<close> is
  the member of that name: \<^verbatim>\<open>undefined\<close> when the body has none or is no object,
  \<^verbatim>\<open>null\<close>, a boolean, the number zero, a string, or any other value (a number that
  is not zero, an array, an object), kept here as its JSON text.

  A header value is a byte string: each \<open>char\<close> is one code unit below 256.
\<close>

datatype js_value = Undefined | Null | Boolean bool | Zero | Str string | Other string

datatype json_body = Unparsable | Null_body | Body js_value

text \<open>\<^verbatim>\<open>!token\<close>\<close>

fun falsy :: "js_value \<Rightarrow> bool" where
  "falsy Undefined = True"
| "falsy Null = True"
| "falsy (Boolean b) = (\<not> b)"
| "falsy Zero = True"
| "falsy (Str s) = (s = [])"
| "falsy (Other j) = False"

record request =
  http_method :: string
  json :: json_body
  x_forwarded_for :: "string option"
  x_real_ip :: "string option"
  user_agent_header :: "string option"

text \<open>
  What the handler takes from its surroundings: the clock of the store at the lookup,
  the handler's own clock (\<^verbatim>\<open>new Date()\<close>), the clock of the store at the consume
  call, the two generated row ids, whether the lookup call itself failed
  (\<^verbatim>\<open>linkError\<close>), a failure of the consume call that is not an exception of
  \<^verbatim>\<open>log_download\<close> with its message, and the signed-URL issuer of the object store
  (\<open>None\<close> when it fails).

  Two conversions of the store are taken from the surroundings as well. A
  \<^verbatim>\<open>link_token\<close> argument that is not a string reaches the \<^verbatim>\<open>text\<close> parameter
  as \<open>argument_text\<close> gives it (\<open>None\<close> when the store refuses the argument and the
  call fails). The \<^verbatim>\<open>ip_addr\<close> argument is a string that the store casts to
  \<^verbatim>\<open>inet\<close>: \<open>inet_in\<close> gives the address in its canonical form, or the message
  of the failed cast.
\<close>

record environment =
  lookup_now :: timestamptz
  js_now :: timestamptz
  consume_now :: timestamptz
  attempt_uuid :: uuid
  log_uuid :: uuid
  lookup_failed :: bool
  consume_failed :: "string option"
  create_signed_url :: "string \<Rightarrow> nat \<Rightarrow> string option"
  argument_text :: "js_value \<Rightarrow> string option"
  inet_in :: "string \<Rightarrow> string + inet"

text \<open>The text of the \<^verbatim>\<open>link_token\<close> argument as the store's functions receive it.\<close>

definition link_token_text :: "environment \<Rightarrow> js_value \<Rightarrow> string option" where
  "link_token_text env v = (case v of Str s \<Rightarrow> Some s | _ \<Rightarrow> argument_text env v)"

text \<open>The branch in which the handler answers.\<close>

datatype handled =
    Preflight
  | Token_required
  | Link_not_found
  | Link_no_longer_valid
  | Log_failed string
  | Url_failed
  | Signed string string
  | Internal_error

datatype payload = Plain string | Error string | Download string string

record response =
  status :: nat
  payload :: payload

fun respond :: "handled \<Rightarrow> response" where
  "respond Preflight = \<lparr>status = 200, payload = Plain ''ok''\<rparr>"
| "respond Token_required = \<lparr>status = 400, payload = Error ''Token is required''\<rparr>"
| "respond Link_not_found = \<lparr>status = 404, payload = Error ''Invalid or expired link''\<rparr>"
| "respond Link_no_longer_valid =
     \<lparr>status = 403, payload = Error ''Link is no longer valid''\<rparr>"
| "respond (Log_failed msg) =
     \<lparr>status = 403,
      payload = Error (if msg = [] then ''Failed to log download'' else msg)\<rparr>"
| "respond Url_failed =
     \<lparr>status = 500, payload = Error ''Failed to generate download URL''\<rparr>"
| "respond (Signed url name) = \<lparr>status = 200, payload = Download url name\<rparr>"
| "respond Internal_error = \<lparr>status = 500, payload = Error ''Internal server error''\<rparr>"

text \<open>
  \<^verbatim>\<open>forwardedFor ? forwardedFor.split(',')[0].trim()
     : (req.headers.get('x-real-ip') || '0.0.0.0')\<close> and
  \<^verbatim>\<open>req.headers.get('user-agent') || 'unknown'\<close>. An empty string is falsy.
  \<^verbatim>\<open>trim\<close> removes white space and line terminators at both ends; below 256
  these are the code units 9 to 13, 32 and 160.
\<close>

definition js_space :: "char \<Rightarrow> bool" where
  "js_space c = (c = CHR '' '' \<or> c = CHR 0x09 \<or> c = CHR 0x0A \<or> c = CHR 0x0B
                 \<or> c = CHR 0x0C \<or> c = CHR 0x0D \<or> c = CHR 0xA0)"

definition trim :: "string \<Rightarrow> string" where
  "trim s = rev (dropWhile js_space (rev (dropWhile js_space s)))"

definition or_else :: "string option \<Rightarrow> string \<Rightarrow> string" where
  "or_else h d = (case h of None \<Rightarrow> d | Some s \<Rightarrow> if s = [] then d else s)"

definition ip_address :: "request \<Rightarrow> string" where
  "ip_address req =
     (case x_forwarded_for req of
        None \<Rightarrow> or_else (x_real_ip req) ''0.0.0.0''
      | Some ff \<Rightarrow>
          if ff = [] then or_else (x_real_ip req) ''0.0.0.0''
          else trim (takeWhile (\<lambda>c. c \<noteq> CHR '','') ff))"

text \<open>
  \<^verbatim>\<open>isExpired\<close>, \<^verbatim>\<open>limitReached\<close> and the test
  \<^verbatim>\<open>!shareLink.is_active || isExpired || limitReached\<close>. A \<^verbatim>\<open>max_downloads\<close>
  of \<^verbatim>\<open>0\<close> is falsy, like \<^verbatim>\<open>null\<close>.
\<close>

definition is_expired :: "timestamptz \<Rightarrow> link_view \<Rightarrow> bool" where
  "is_expired now v = (case v_expires_at v of None \<Rightarrow> False | Some e \<Rightarrow> e < now)"

definition limit_reached :: "link_view \<Rightarrow> bool" where
  "limit_reached v =
     (case v_max_downloads v of
        None \<Rightarrow> False
      | Some m \<Rightarrow> if m = 0 then False else v_current_downloads v \<ge> m)"

definition no_longer_valid :: "timestamptz \<Rightarrow> link_view \<Rightarrow> bool" where
  "no_longer_valid now v = (\<not> v_is_active v \<or> is_expired now v \<or> limit_reached v)"

text \<open>
  \<^verbatim>\<open>supabaseAdmin.rpc('log_download', {link_token, user_agent_text, ip_addr})\<close>: the
  \<^verbatim>\<open>logError\<close> of the handler carries the message of the error, whether it is an
  exception of the function, the failed cast of \<^verbatim>\<open>ip_addr\<close>, or another failure of
  the call.
\<close>

definition rpc_log_download ::
  "environment \<Rightarrow> database \<Rightarrow> string \<Rightarrow> string \<Rightarrow> string \<Rightarrow> (string + uuid) \<times> database" where
  "rpc_log_download env db link_token user_agent_text ip_addr =
     (case consume_failed env of
        Some msg \<Rightarrow> (Inl msg, db)
      | None \<Rightarrow>
          (case inet_in env ip_addr of
             Inl msg \<Rightarrow> (Inl msg, db)
           | Inr addr \<Rightarrow>
               (case log_download db (consume_now env) (attempt_uuid env) (log_uuid env)
                       link_token user_agent_text addr of
                  (Inl e, db') \<Rightarrow> (Inl (message e), db')
                | (Inr l, db') \<Rightarrow> (Inr l, db'))))"

text \<open>
  The handler after it has a truthy token, whose text for the store is \<open>tok\<close>: the
  lookup, the second test of the link, the consume call and the signed URL.
\<close>

definition serve_token ::
  "environment \<Rightarrow> request \<Rightarrow> string \<Rightarrow> database \<Rightarrow> handled \<times> database" where
  "serve_token env req tok db =
     (if lookup_failed env then (Link_not_found, db)
      else
        (case get_share_link_by_token db (lookup_now env) tok of
           [] \<Rightarrow> (Link_not_found, db)
         | shareLink # _ \<Rightarrow>
             (if no_longer_valid (js_now env) shareLink
              then (Link_no_longer_valid, db)
              else
                (case rpc_log_download env db tok
                        (or_else (user_agent_header req) ''unknown'')
                        (ip_address req) of
                   (Inl msg, db') \<Rightarrow> (Log_failed msg, db')
                 | (Inr _, db') \<Rightarrow>
                     (case create_signed_url env (v_storage_path shareLink) 3600 of
                        None \<Rightarrow> (Url_failed, db')
                      | Some url \<Rightarrow>
                          (Signed url (v_original_filename shareLink), db'))))))"

definition download_file :: "environment \<Rightarrow> request \<Rightarrow> database \<Rightarrow> handled \<times> database" where
  "download_file env req db =
     (if http_method req = ''OPTIONS'' then (Preflight, db)
      else
        (case json req of
           Unparsable \<Rightarrow> (Internal_error, db)
         | Null_body \<Rightarrow> (Internal_error, db)
         | Body v \<Rightarrow>
             (if falsy v then (Token_required, db)
              else
                (case link_token_text env v of
                   None \<Rightarrow> (Link_not_found, db)
                 | Some tok \<Rightarrow> serve_token env req tok db))))"

text \<open>The HTTP response of the handler.\<close>

definition download_file_response :: "environment \<Rightarrow> request \<Rightarrow> database \<Rightarrow> response" where
  "download_file_response env req db = respond (fst (download_file env req db))"

section \<open>The other statements that touch \<^verbatim>\<open>share_links\<close>\<close>

text \<open>
  The upload form creates a link with
  \<^verbatim>\<open>supabase.from('share_links').insert({file_id, token, expires_at, max_downloads,
     is_active: true})\<close>. The other columns take their defaults, \<^verbatim>\<open>current_downloads\<close>
  the default \<^verbatim>\<open>0\<close>. The insert policy admits the row when the caller owns the file;
  \<^verbatim>\<open>id\<close> is the primary key and \<^verbatim>\<open>token\<close> is \<^verbatim>\<open>UNIQUE\<close>.
\<close>

datatype insert_error = Row_level_security | Unique_violation

definition insert_share_link ::
  "database \<Rightarrow> timestamptz \<Rightarrow> uuid \<Rightarrow> uuid option \<Rightarrow> uuid \<Rightarrow> string \<Rightarrow> timestamptz option
     \<Rightarrow> int option \<Rightarrow> insert_error + database" where
  "insert_share_link db now new_id uid fid tok expiresAt maxDownloads =
     (if \<not> owns_file db uid fid then Inl Row_level_security
      else if list_ex (\<lambda>r. sl_id r = new_id \<or> token r = tok) (share_links db)
        then Inl Unique_violation
      else Inr (db\<lparr>share_links := share_links db @
                  [\<lparr>sl_id = new_id, file_id = fid, token = tok, expires_at = expiresAt,
                    max_downloads = maxDownloads, current_downloads = 0,
                    password_hash = None, is_active = True,
                    sl_created_at = now, sl_updated_at = now\<rparr>]\<rparr>))"

text \<open>
  The dashboard deletes a file with
  \<^verbatim>\<open>supabase.from("files").delete().eq("id", fileId)\<close>. The delete policy lets through
  the caller's own files; \<^verbatim>\<open>ON DELETE CASCADE\<close> removes the links of a deleted file
  and the download logs of a removed link.
\<close>

definition delete_file :: "database \<Rightarrow> uuid option \<Rightarrow> uuid \<Rightarrow> database" where
  "delete_file db uid fileId =
     (let deleted = (\<lambda>f. f_id f = fileId \<and> Some (user_id f) = uid);
          link_gone = (\<lambda>l. list_ex (\<lambda>f. deleted f \<and> f_id f = file_id l) (files db));
          log_gone = (\<lambda>g. list_ex (\<lambda>l. link_gone l \<and> sl_id l = share_link_id g)
                              (share_links db))
      in db\<lparr>files := filter (\<lambda>f. \<not> deleted f) (files db),
            share_links := filter (\<lambda>l. \<not> link_gone l) (share_links db),
            download_logs := filter (\<lambda>g. \<not> log_gone g) (download_logs db)\<rparr>)"

text \<open>
  The operations on the store, with the arguments and the clock and row ids each one
  takes, and the store each one leaves.
\<close>

datatype operation =
    Get_share_link_by_token timestamptz string
  | Log_download timestamptz uuid uuid string string inet
  | Log_download_2 timestamptz uuid string string
  | Insert_share_link timestamptz uuid "uuid option" uuid string "timestamptz option"
      "int option"
  | Delete_file "uuid option" uuid

fun perform :: "operation \<Rightarrow> database \<Rightarrow> database" where
  "perform (Get_share_link_by_token now link_token) db = db"
| "perform (Log_download now attempt_id log_id link_token user_agent_text ip_addr) db =
     snd (log_download db now attempt_id log_id link_token user_agent_text ip_addr)"
| "perform (Log_download_2 now log_id link_token user_agent_text) db =
     snd (log_download_2 db now log_id link_token user_agent_text)"
| "perform (Insert_share_link now new_id uid fid tok expiresAt maxDownloads) db =
     (case insert_share_link db now new_id uid fid tok expiresAt maxDownloads of
        Inl _ \<Rightarrow> db
      | Inr db' \<Rightarrow> db')"
| "perform (Delete_file uid fileId) db = delete_file db uid fileId"

fun is_log_download :: "operation \<Rightarrow> bool" where
  "is_log_download (Log_download _ _ _ _ _ _) = True"
| "is_log_download (Log_download_2 _ _ _ _) = True"
| "is_log_download _ = False"

text \<open>
  The invariant of a link, and the primary key and the \<^verbatim>\<open>UNIQUE (token)\<close>
  constraint of the table.
\<close>

definition within_limit :: "share_link \<Rightarrow> bool" where
  "within_limit r =
     (case max_downloads r of None \<Rightarrow> True | Some m \<Rightarrow> current_downloads r \<le> m)"

definition primary_key :: "database \<Rightarrow> bool" where
  "primary_key db = distinct (map sl_id (share_links db))"

definition token_unique :: "database \<Rightarrow> bool" where
  "token_unique db = distinct (map token (share_links db))"

text \<open>
  How one operation may change a link: the limit and the token stay, a link within its
  limit stays within it, the counter does not go down, and it moves only in a
  \<^verbatim>\<open>log_download\<close>, by one, from below the limit.
\<close>

definition link_step :: "operation \<Rightarrow> share_link \<Rightarrow> share_link \<Rightarrow> bool" where
  "link_step op r r' =
     (max_downloads r' = max_downloads r \<and> token r' = token r
      \<and> (within_limit r \<longrightarrow> within_limit r')
      \<and> current_downloads r \<le> current_downloads r'
      \<and> (current_downloads r' \<noteq> current_downloads r \<longrightarrow>
            is_log_download op \<and> current_downloads r' = current_downloads r + 1
            \<and> (case max_downloads r of None \<Rightarrow> True | Some m \<Rightarrow> current_downloads r < m)))"

section \<open>Several calls of \<^verbatim>\<open>log_download\<close>\<close>

record call =
  c_now :: timestamptz
  c_attempt_id :: uuid
  c_log_id :: uuid
  c_token :: string
  c_user_agent :: string
  c_ip :: inet

definition call_log_download :: "database \<Rightarrow> call \<Rightarrow> (pg_exception + uuid) \<times> database" where
  "call_log_download db c =
     log_download db (c_now c) (c_attempt_id c) (c_log_id c) (c_token c) (c_user_agent c)
       (c_ip c)"

text \<open>Calls one after the other: each runs to its end before the next begins.\<close>

fun run_serial :: "database \<Rightarrow> call list \<Rightarrow> (pg_exception + uuid) list \<times> database" where
  "run_serial db [] = ([], db)"
| "run_serial db (c # cs) =
     (case call_log_download db c of
        (r, db') \<Rightarrow> (case run_serial db' cs of (rs, db'') \<Rightarrow> (r # rs, db'')))"

definition succeeded :: "pg_exception + uuid \<Rightarrow> bool" where
  "succeeded r = (case r of Inl _ \<Rightarrow> False | Inr _ \<Rightarrow> True)"

text \<open>The number of calls for a token that succeeded, and the number made.\<close>

definition successes :: "string \<Rightarrow> call list \<Rightarrow> (pg_exception + uuid) list \<Rightarrow> nat" where
  "successes tok cs rs =
     length (filter (\<lambda>(c, r). c_token c = tok \<and> succeeded r) (zip cs rs))"

definition attempts :: "string \<Rightarrow> call list \<Rightarrow> nat" where
  "attempts tok cs = length (filter (\<lambda>c. c_token c = tok) cs)"

text \<open>What one call adds to the successes for a token.\<close>

definition counted :: "string \<Rightarrow> call \<Rightarrow> pg_exception + uuid \<Rightarrow> nat" where
  "counted tok c r = (if c_token c = tok \<and> succeeded r then 1 else 0)"

text \<open>
  Two calls at once. The function takes no lock on the link row (its \<^verbatim>\<open>SELECT\<close>
  has no \<^verbatim>\<open>FOR UPDATE\<close>, its \<^verbatim>\<open>UPDATE\<close> does not repeat the test of the limit),
  and a statement of a transaction sees what was committed before the statement began.
  So the reads of the second call may run before the first call has written: both
  calls read the same store, then the first writes and commits, then the second writes
  on what the first left.
\<close>

definition call_reads :: "database \<Rightarrow> call \<Rightarrow> pg_exception + uuid option" where
  "call_reads db c = log_download_reads db (c_now c) (c_token c) (c_ip c)"

definition call_writes ::
  "database \<Rightarrow> call \<Rightarrow> pg_exception + uuid option \<Rightarrow> (pg_exception + uuid) \<times> database" where
  "call_writes db c r =
     transaction db
       (case r of
          Inl e \<Rightarrow> Raised e db
        | Inr link_id \<Rightarrow>
            log_download_writes db (c_now c) (c_attempt_id c) (c_log_id c) (c_token c)
              (c_user_agent c) (c_ip c) link_id)"

definition run_overlapped ::
  "database \<Rightarrow> call \<Rightarrow> call \<Rightarrow> ((pg_exception + uuid) \<times> (pg_exception + uuid)) \<times> database" where
  "run_overlapped db a b =
     (let ra = call_reads db a;
          rb = call_reads db b
      in case call_writes db a ra of
           (res_a, db1) \<Rightarrow>
             (case call_writes db1 b rb of (res_b, db2) \<Rightarrow> ((res_a, res_b), db2)))"

section \<open>Sample rows\<close>

definition sample_file :: file_row where
  "sample_file =
     \<lparr>f_id = 1, user_id = 7, filename = ''1761832487-k3.pdf'',
      original_filename = ''report.pdf'', file_size = 2048,
      content_type = ''application/pdf'', storage_path = ''7/1761832487-k3.pdf'',
      is_encrypted = True, f_created_at = 0, f_updated_at = 0\<rparr>"

definition sample_link :: share_link where
  "sample_link =
     \<lparr>sl_id = 1, file_id = 1, token = ''c0ffee'', expires_at = None,
      max_downloads = Some 1, current_downloads = 0, password_hash = None,
      is_active = True, sl_created_at = 0, sl_updated_at = 0\<rparr>"

text \<open>A link without a limit that has been downloaded 20 times.\<close>

definition busy_link :: share_link where
  "busy_link = sample_link\<lparr>max_downloads := None, current_downloads := 20\<rparr>"

text \<open>A link without a limit whose counter is at the largest \<^verbatim>\<open>INTEGER\<close>.\<close>

definition full_link :: share_link where
  "full_link = sample_link\<lparr>max_downloads := None, current_downloads := 2147483647\<rparr>"

definition sample_attempt :: "inet \<Rightarrow> string \<Rightarrow> bool \<Rightarrow> nat \<Rightarrow> download_attempt" where
  "sample_attempt ip tok ok i =
     \<lparr>da_id = 100 + i, da_ip_address = ip, da_token = tok, attempted_at = 5, success = ok\<rparr>"

definition sample_log :: "inet \<Rightarrow> nat \<Rightarrow> download_log" where
  "sample_log ip i =
     \<lparr>dl_id = 400 + i, share_link_id = 1, dl_ip_address = Some ip,
      user_agent = Some ''curl/8.5.0'', downloaded_at = 5\<rparr>"

text \<open>
  A store with one file, one link and \<open>n\<close> attempts in the ledger, all made at time 5
  from one address for one token, with their download logs when they succeeded.
\<close>

definition sample_db :: "share_link \<Rightarrow> inet \<Rightarrow> string \<Rightarrow> bool \<Rightarrow> nat \<Rightarrow> database" where
  "sample_db l ip tok ok n =
     \<lparr>files = [sample_file], share_links = [l],
      download_logs = (if ok then map (sample_log ip) [0..<n] else []),
      download_attempts = map (sample_attempt ip tok ok) [0..<n]\<rparr>"

definition sample_call :: "nat \<Rightarrow> call" where
  "sample_call i =
     \<lparr>c_now = 10, c_attempt_id = 200 + i, c_log_id = 300 + i, c_token = ''c0ffee'',
      c_user_agent = ''curl/8.5.0'', c_ip = ''203.0.113.9''\<rparr>"

definition sample_request :: "string \<Rightarrow> request" where
  "sample_request tok =
     \<lparr>http_method = ''POST'', json = Body (Str tok),
      x_forwarded_for = Some ''203.0.113.9, 10.0.0.1'', x_real_ip = None,
      user_agent_header = Some ''curl/8.5.0''\<rparr>"

definition sample_env :: environment where
  "sample_env =
     \<lparr>lookup_now = 10, js_now = 10, consume_now = 10, attempt_uuid = 200, log_uuid = 300,
      lookup_failed = False, consume_failed = None,
      create_signed_url = (\<lambda>path ttl. Some (''https://store.example/'' @ path)),
      argument_text = (\<lambda>v. None),
      inet_in = (\<lambda>s. if s = ''203.0.113.9'' \<or> s = ''0.0.0.0'' then Inr s
                     else Inl (''invalid input syntax for type inet: '' @ [CHR 0x22] @ s
                                 @ [CHR 0x22]))\<rparr>"

section \<open>Auxiliary facts\<close>

lemma increment_after_inserts:
  "increment_downloads now k
     (insert_log l now' k' ua ip (insert_attempt a now'' ip' t ok db)) =
   (if list_ex (\<lambda>r. sl_id r = k \<and> current_downloads r + 1 > int4_max) (share_links db)
    then None
    else Some (db\<lparr>download_attempts := download_attempts db @
                     [\<lparr>da_id = a, da_ip_address = ip', da_token = t,
                       attempted_at = now'', success = ok\<rparr>],
                  download_logs := download_logs db @
                     [\<lparr>dl_id = l, share_link_id = k', dl_ip_address = ip,
                       user_agent = ua, downloaded_at = now'\<rparr>],
                  share_links := map (increment_row now k) (share_links db)\<rparr>))"
  by (simp add: increment_downloads_def insert_log_def insert_attempt_def)

lemma log_download_eq:
  "log_download db now a l t ua ip =
     (if recent_attempts db now ip \<ge> 20 then (Inl Ip_rate_limit, db)
      else if recent_failures db now t \<ge> 10 then (Inl Token_failure_limit, db)
      else (case select_link_id db now t of
              None \<Rightarrow> (Inl Invalid_link, db)
            | Some k \<Rightarrow>
                (case increment_downloads now k
                        (insert_log l now k (Some ua) (Some ip)
                          (insert_attempt a now ip t True db)) of
                   None \<Rightarrow> (Inl Integer_out_of_range, db)
                 | Some db' \<Rightarrow> (Inr l, db'))))"
  by (simp add: log_download_def log_download_body_def log_download_reads_def
        log_download_writes_def transaction_def Let_def split: option.split)

lemma filter_single:
  assumes "distinct (map f xs)" "r \<in> set xs" "P r" "\<And>x. P x \<Longrightarrow> f x = k"
  shows "filter P xs = [r]"
  using assms(1,2)
proof (induction xs)
  case Nil
  then show ?case by simp
next
  case (Cons x xs)
  have nx: "f x \<notin> f ` set xs" using Cons.prems(1) by simp
  have fr: "f r = k" using assms(3,4) by blast
  show ?case
  proof (cases "x = r")
    case True
    have "\<not> P y" if "y \<in> set xs" for y
    proof
      assume "P y"
      then have "f y = f x" using assms(4) True fr by metis
      with nx that show False by (metis imageI)
    qed
    then have "filter P xs = []" by (simp add: filter_empty_conv)
    with True assms(3) show ?thesis by simp
  next
    case False
    with Cons.prems have r: "r \<in> set xs" by simp
    have "\<not> P x"
    proof
      assume "P x"
      then have "f x = f r" using assms(4) fr by metis
      with nx r show False by (metis imageI)
    qed
    moreover have "filter P xs = [r]"
      using Cons.IH Cons.prems(1) r by simp
    ultimately show ?thesis by simp
  qed
qed

lemma select_link_id_Some:
  "select_link_id db now t = Some k \<Longrightarrow>
     \<exists>r \<in> set (share_links db). link_matches now t r \<and> sl_id r = k"
proof -
  assume a: "select_link_id db now t = Some k"
  then obtain r rs where f: "filter (link_matches now t) (share_links db) = r # rs" "sl_id r = k"
    by (auto simp: select_link_id_def split: list.splits)
  have "r \<in> set (filter (link_matches now t) (share_links db))"
    unfolding f(1) by simp
  then have "r \<in> set (share_links db)" "link_matches now t r" by simp_all
  with f(2) show ?thesis by blast
qed

lemma select_link_id_None:
  "select_link_id db now t = None \<longleftrightarrow> (\<forall>r \<in> set (share_links db). \<not> link_matches now t r)"
proof -
  have "select_link_id db now t = None \<longleftrightarrow> filter (link_matches now t) (share_links db) = []"
    by (simp add: select_link_id_def split: list.splits)
  then show ?thesis by (simp add: filter_empty_conv)
qed

lemma select_link_id_unique:
  assumes "token_unique db" "r \<in> set (share_links db)" "link_matches now t r"
  shows "select_link_id db now t = Some (sl_id r)"
proof -
  have "filter (link_matches now t) (share_links db) = [r]"
  proof (rule filter_single [where f = token and k = t])
    show "distinct (map token (share_links db))" using assms(1) by (simp add: token_unique_def)
    show "r \<in> set (share_links db)" by (rule assms(2))
    show "link_matches now t r" by (rule assms(3))
    show "token x = t" if "link_matches now t x" for x
      using that by (simp add: link_matches_def)
  qed
  then show ?thesis by (simp add: select_link_id_def)
qed

lemma increment_only:
  assumes "distinct (map sl_id xs)" "r \<in> set xs"
  shows "map (increment_row now (sl_id r)) xs =
         map (\<lambda>x. if x = r then r\<lparr>current_downloads := current_downloads r + 1,
                                    sl_updated_at := now\<rparr> else x) xs"
proof (rule map_cong [OF refl])
  fix x assume "x \<in> set xs"
  with assms have "sl_id x = sl_id r \<longleftrightarrow> x = r"
    by (auto simp: distinct_map dest: inj_onD)
  then show "increment_row now (sl_id r) x =
        (if x = r then r\<lparr>current_downloads := current_downloads r + 1, sl_updated_at := now\<rparr> else x)"
    by (auto simp: increment_row_def)
qed

lemma no_overflow_row:
  assumes "distinct (map sl_id xs)" "r \<in> set xs" "current_downloads r < int4_max"
  shows "\<not> list_ex (\<lambda>x. sl_id x = sl_id r \<and> current_downloads x + 1 > int4_max) xs"
proof
  assume "list_ex (\<lambda>x. sl_id x = sl_id r \<and> current_downloads x + 1 > int4_max) xs"
  then obtain x where x: "x \<in> set xs" "sl_id x = sl_id r" "current_downloads x + 1 > int4_max"
    by (auto simp: list_ex_iff)
  with assms(1,2) have "x = r" by (auto simp: distinct_map dest: inj_onD)
  with x(3) assms(3) show False by simp
qed

lemma log_download_usable:
  assumes "primary_key db" "token_unique db" "r \<in> set (share_links db)"
    "link_matches now link_token r" "current_downloads r < int4_max"
    "recent_attempts db now ip_addr < 20" "recent_failures db now link_token < 10"
  shows "log_download db now attempt_id log_id link_token user_agent_text ip_addr =
           (Inr log_id,
            db\<lparr>download_attempts := download_attempts db @
                  [\<lparr>da_id = attempt_id, da_ip_address = ip_addr, da_token = link_token,
                    attempted_at = now, success = True\<rparr>],
               download_logs := download_logs db @
                  [\<lparr>dl_id = log_id, share_link_id = sl_id r, dl_ip_address = Some ip_addr,
                    user_agent = Some user_agent_text, downloaded_at = now\<rparr>],
               share_links :=
                  map (\<lambda>x. if x = r
                            then r\<lparr>current_downloads := current_downloads r + 1,
                                   sl_updated_at := now\<rparr>
                            else x) (share_links db)\<rparr>)"
proof -
  have sel: "select_link_id db now link_token = Some (sl_id r)"
    using assms(2,3,4) by (rule select_link_id_unique)
  have inc: "map (increment_row now (sl_id r)) (share_links db) =
         map (\<lambda>x. if x = r then r\<lparr>current_downloads := current_downloads r + 1,
                                    sl_updated_at := now\<rparr> else x) (share_links db)"
    using assms(1,3) unfolding primary_key_def by (rule increment_only)
  have room: "\<not> list_ex (\<lambda>x. sl_id x = sl_id r \<and> current_downloads x + 1 > int4_max)
                  (share_links db)"
    using assms(1,3,5) unfolding primary_key_def by (rule no_overflow_row)
  show ?thesis
    using assms(6,7) sel inc room
    by (simp add: log_download_eq increment_after_inserts)
qed

section \<open>Rate limiting\<close>

text \<open>
  C4. \<^verbatim>\<open>log_download\<close> raises a rate-limit exception when the requester's address has
  20 or more attempts (of either outcome) in the trailing hour, and when the token has
  10 or more failed attempts in the trailing hour. In both cases the store is left as it
  was, and the outcome does not depend on the \<^verbatim>\<open>share_links\<close> table: the windows
  are decided before the link is read.
\<close>

theorem log_download_rate_limited:
  assumes "recent_attempts db now ip_addr \<ge> 20 \<or> recent_failures db now link_token \<ge> 10"
  shows "\<exists>e. rate_limited e
           \<and> (\<forall>links. log_download (db\<lparr>share_links := links\<rparr>) now attempt_id log_id
                         link_token user_agent_text ip_addr
                       = (Inl e, db\<lparr>share_links := links\<rparr>))
           \<and> log_download db now attempt_id log_id link_token user_agent_text ip_addr
               = (Inl e, db)
           \<and> (recent_attempts db now ip_addr \<ge> 20 \<longrightarrow> e = Ip_rate_limit)
           \<and> (recent_attempts db now ip_addr < 20 \<longrightarrow> e = Token_failure_limit)"
proof (cases "recent_attempts db now ip_addr \<ge> 20")
  case True
  then show ?thesis
    by (intro exI [of _ Ip_rate_limit])
       (simp add: rate_limited_def log_download_def log_download_body_def
          log_download_reads_def transaction_def recent_attempts_def recent_failures_def)
next
  case False
  with assms have "recent_failures db now link_token \<ge> 10" by simp
  with False show ?thesis
    by (intro exI [of _ Token_failure_limit])
       (simp add: rate_limited_def log_download_def log_download_body_def
          log_download_reads_def transaction_def recent_attempts_def recent_failures_def)
qed

theorem log_download_rate_limited_witness:
  "recent_attempts (sample_db busy_link ''203.0.113.9'' ''c0ffee'' True 20) 10 ''203.0.113.9'' \<ge> 20
   \<and> recent_failures (sample_db sample_link ''198.51.100.4'' ''c0ffee'' False 10) 10 ''c0ffee'' \<ge> 10
   \<and> log_download (sample_db busy_link ''203.0.113.9'' ''c0ffee'' True 20) 10 200 300
        ''c0ffee'' ''curl/8.5.0'' ''203.0.113.9''
      = (Inl Ip_rate_limit, sample_db busy_link ''203.0.113.9'' ''c0ffee'' True 20)
   \<and> log_download (sample_db sample_link ''198.51.100.4'' ''c0ffee'' False 10) 10 200 300
        ''c0ffee'' ''curl/8.5.0'' ''203.0.113.9''
      = (Inl Token_failure_limit, sample_db sample_link ''198.51.100.4'' ''c0ffee'' False 10)"
proof -
  let ?d1 = "sample_db busy_link ''203.0.113.9'' ''c0ffee'' True 20"
  let ?d2 = "sample_db sample_link ''198.51.100.4'' ''c0ffee'' False 10"
  have h1: "recent_attempts ?d1 10 ''203.0.113.9'' \<ge> 20" by code_simp
  have h2: "recent_failures ?d2 10 ''c0ffee'' \<ge> 10" by code_simp
  have n2: "recent_attempts ?d2 10 ''203.0.113.9'' < 20" by code_simp
  from log_download_rate_limited [where db = ?d1 and now = 10 and ip_addr = "''203.0.113.9''"
      and link_token = "''c0ffee''" and attempt_id = 200 and log_id = 300
      and user_agent_text = "''curl/8.5.0''"] h1
  have r1: "log_download ?d1 10 200 300 ''c0ffee'' ''curl/8.5.0'' ''203.0.113.9''
              = (Inl Ip_rate_limit, ?d1)"
    by metis
  from log_download_rate_limited [where db = ?d2 and now = 10 and ip_addr = "''203.0.113.9''"
      and link_token = "''c0ffee''" and attempt_id = 200 and log_id = 300
      and user_agent_text = "''curl/8.5.0''"] h2 n2
  have r2: "log_download ?d2 10 200 300 ''c0ffee'' ''curl/8.5.0'' ''203.0.113.9''
              = (Inl Token_failure_limit, ?d2)"
    by metis
  from h1 h2 r1 r2 show ?thesis by blast
qed

section \<open>The consume transaction\<close>

text \<open>
  C3, as the code has it. When the token's link is usable, its counter is below the
  largest \<^verbatim>\<open>INTEGER\<close> and neither window has tripped, \<^verbatim>\<open>log_download\<close>
  inserts one attempt with \<^verbatim>\<open>success = true\<close>, inserts one download log with the
  requester's address and user agent, adds one to the \<^verbatim>\<open>current_downloads\<close> of
  that link, and returns the id of the new log. And every call either leaves the
  store as it was or makes all three writes.
\<close>

theorem log_download_three_writes:
  "(primary_key db \<and> token_unique db \<and> r \<in> set (share_links db)
      \<and> link_matches now link_token r \<and> current_downloads r < 2147483647
      \<and> recent_attempts db now ip_addr < 20 \<and> recent_failures db now link_token < 10
    \<longrightarrow> log_download db now attempt_id log_id link_token user_agent_text ip_addr =
           (Inr log_id,
            db\<lparr>download_attempts := download_attempts db @
                  [\<lparr>da_id = attempt_id, da_ip_address = ip_addr, da_token = link_token,
                    attempted_at = now, success = True\<rparr>],
               download_logs := download_logs db @
                  [\<lparr>dl_id = log_id, share_link_id = sl_id r, dl_ip_address = Some ip_addr,
                    user_agent = Some user_agent_text, downloaded_at = now\<rparr>],
               share_links :=
                  map (\<lambda>x. if x = r
                            then r\<lparr>current_downloads := current_downloads r + 1,
                                   sl_updated_at := now\<rparr>
                            else x) (share_links db)\<rparr>))
   \<and> ((\<exists>e. log_download db now attempt_id log_id link_token user_agent_text ip_addr
              = (Inl e, db))
      \<or> (\<exists>k. log_download db now attempt_id log_id link_token user_agent_text ip_addr =
            (Inr log_id,
             db\<lparr>download_attempts := download_attempts db @
                   [\<lparr>da_id = attempt_id, da_ip_address = ip_addr, da_token = link_token,
                     attempted_at = now, success = True\<rparr>],
                download_logs := download_logs db @
                   [\<lparr>dl_id = log_id, share_link_id = k, dl_ip_address = Some ip_addr,
                     user_agent = Some user_agent_text, downloaded_at = now\<rparr>],
                share_links := map (increment_row now k) (share_links db)\<rparr>)))"
proof (intro conjI impI)
  assume "primary_key db \<and> token_unique db \<and> r \<in> set (share_links db)
      \<and> link_matches now link_token r \<and> current_downloads r < 2147483647
      \<and> recent_attempts db now ip_addr < 20 \<and> recent_failures db now link_token < 10"
  then show "log_download db now attempt_id log_id link_token user_agent_text ip_addr =
           (Inr log_id,
            db\<lparr>download_attempts := download_attempts db @
                  [\<lparr>da_id = attempt_id, da_ip_address = ip_addr, da_token = link_token,
                    attempted_at = now, success = True\<rparr>],
               download_logs := download_logs db @
                  [\<lparr>dl_id = log_id, share_link_id = sl_id r, dl_ip_address = Some ip_addr,
                    user_agent = Some user_agent_text, downloaded_at = now\<rparr>],
               share_links :=
                  map (\<lambda>x. if x = r
                            then r\<lparr>current_downloads := current_downloads r + 1,
                                   sl_updated_at := now\<rparr>
                            else x) (share_links db)\<rparr>)"
    by (intro log_download_usable) (simp_all add: int4_max_def)
next
  show "(\<exists>e. log_download db now attempt_id log_id link_token user_agent_text ip_addr
              = (Inl e, db))
      \<or> (\<exists>k. log_download db now attempt_id log_id link_token user_agent_text ip_addr =
            (Inr log_id,
             db\<lparr>download_attempts := download_attempts db @
                   [\<lparr>da_id = attempt_id, da_ip_address = ip_addr, da_token = link_token,
                     attempted_at = now, success = True\<rparr>],
                download_logs := download_logs db @
                   [\<lparr>dl_id = log_id, share_link_id = k, dl_ip_address = Some ip_addr,
                     user_agent = Some user_agent_text, downloaded_at = now\<rparr>],
                share_links := map (increment_row now k) (share_links db)\<rparr>))"
  proof (cases "recent_attempts db now ip_addr \<ge> 20 \<or> recent_failures db now link_token \<ge> 10
                 \<or> select_link_id db now link_token = None")
    case True
    then show ?thesis
      by (auto simp: log_download_eq)
  next
    case False
    then obtain k where "select_link_id db now link_token = Some k" by auto
    with False show ?thesis
      by (auto simp: log_download_eq increment_after_inserts)
  qed
qed

theorem log_download_three_writes_witness:
  "primary_key (sample_db sample_link [] [] True 0)
   \<and> token_unique (sample_db sample_link [] [] True 0)
   \<and> sample_link \<in> set (share_links (sample_db sample_link [] [] True 0))
   \<and> link_matches 10 ''c0ffee'' sample_link \<and> current_downloads sample_link < 2147483647
   \<and> recent_attempts (sample_db sample_link [] [] True 0) 10 ''203.0.113.9'' < 20
   \<and> recent_failures (sample_db sample_link [] [] True 0) 10 ''c0ffee'' < 10
   \<and> log_download (sample_db sample_link [] [] True 0) 10 200 300
        ''c0ffee'' ''curl/8.5.0'' ''203.0.113.9''
      = (Inr 300,
         \<lparr>files = [sample_file],
          share_links = [sample_link\<lparr>current_downloads := 1, sl_updated_at := 10\<rparr>],
          download_logs =
            [\<lparr>dl_id = 300, share_link_id = 1, dl_ip_address = Some ''203.0.113.9'',
              user_agent = Some ''curl/8.5.0'', downloaded_at = 10\<rparr>],
          download_attempts =
            [\<lparr>da_id = 200, da_ip_address = ''203.0.113.9'', da_token = ''c0ffee'',
              attempted_at = 10, success = True\<rparr>]\<rparr>)"
proof -
  let ?d = "sample_db sample_link [] [] True 0"
  have h: "primary_key ?d \<and> token_unique ?d \<and> sample_link \<in> set (share_links ?d)
      \<and> link_matches 10 ''c0ffee'' sample_link \<and> current_downloads sample_link < 2147483647
      \<and> recent_attempts ?d 10 ''203.0.113.9'' < 20 \<and> recent_failures ?d 10 ''c0ffee'' < 10"
  proof (intro conjI)
    show "primary_key ?d" "token_unique ?d" "sample_link \<in> set (share_links ?d)"
      by (simp_all add: primary_key_def token_unique_def sample_db_def)
    show "link_matches 10 ''c0ffee'' sample_link"
      by (simp add: link_matches_def sample_link_def)
    show "current_downloads sample_link < 2147483647" by (simp add: sample_link_def)
    show "recent_attempts ?d 10 ''203.0.113.9'' < 20" by code_simp
    show "recent_failures ?d 10 ''c0ffee'' < 10" by code_simp
  qed
  from log_download_three_writes [where db = ?d and r = sample_link and now = 10
      and link_token = "''c0ffee''" and ip_addr = "''203.0.113.9''" and attempt_id = 200
      and log_id = 300 and user_agent_text = "''curl/8.5.0''"] h
  have "log_download ?d 10 200 300 ''c0ffee'' ''curl/8.5.0'' ''203.0.113.9'' =
           (Inr 300,
            ?d\<lparr>download_attempts := download_attempts ?d @
                  [\<lparr>da_id = 200, da_ip_address = ''203.0.113.9'', da_token = ''c0ffee'',
                    attempted_at = 10, success = True\<rparr>],
               download_logs := download_logs ?d @
                  [\<lparr>dl_id = 300, share_link_id = sl_id sample_link,
                    dl_ip_address = Some ''203.0.113.9'',
                    user_agent = Some ''curl/8.5.0'', downloaded_at = 10\<rparr>],
               share_links :=
                  map (\<lambda>x. if x = sample_link
                            then sample_link\<lparr>current_downloads :=
                                     current_downloads sample_link + 1,
                                   sl_updated_at := 10\<rparr>
                            else x) (share_links ?d)\<rparr>)"
    by blast
  with h show ?thesis
    by (simp add: sample_db_def sample_link_def)
qed

text \<open>
  The claim C3 as it is written fails at the end of the counter's range. A link
  without a limit whose counter is 2147483647 is usable, and no window has tripped;
  the call inserts the attempt and the log, the increment raises "integer out of
  range", and the store is left as it was.
\<close>

theorem three_writes_counterexample:
  "full_link \<in> set (share_links (sample_db full_link [] [] True 0))
   \<and> link_matches 10 ''c0ffee'' full_link
   \<and> recent_attempts (sample_db full_link [] [] True 0) 10 ''203.0.113.9'' < 20
   \<and> recent_failures (sample_db full_link [] [] True 0) 10 ''c0ffee'' < 10
   \<and> log_download (sample_db full_link [] [] True 0) 10 200 300
        ''c0ffee'' ''curl/8.5.0'' ''203.0.113.9''
      = (Inl Integer_out_of_range, sample_db full_link [] [] True 0)"
proof (intro conjI)
  let ?d = "sample_db full_link [] [] True 0"
  show "full_link \<in> set (share_links ?d)" by (simp add: sample_db_def)
  show "link_matches 10 ''c0ffee'' full_link"
    by (simp add: link_matches_def full_link_def sample_link_def)
  show "recent_attempts ?d 10 ''203.0.113.9'' < 20"
    by (simp add: recent_attempts_def sample_db_def)
  show "recent_failures ?d 10 ''c0ffee'' < 10"
    by (simp add: recent_failures_def sample_db_def)
  have sel: "select_link_id ?d 10 ''c0ffee'' = Some 1"
    by (simp add: select_link_id_def sample_db_def full_link_def sample_link_def
          link_matches_def)
  have full: "list_ex (\<lambda>r. sl_id r = 1 \<and> current_downloads r + 1 > int4_max) (share_links ?d)"
    by (simp add: sample_db_def full_link_def sample_link_def int4_max_def)
  show "log_download ?d 10 200 300 ''c0ffee'' ''curl/8.5.0'' ''203.0.113.9''
      = (Inl Integer_out_of_range, ?d)"
    using sel full
    by (simp add: log_download_eq increment_after_inserts recent_attempts_def
          recent_failures_def)
       (simp add: sample_db_def)
qed

section \<open>Operations on the store, row by row\<close>

lemma pk_same_row:
  "distinct (map sl_id xs) \<Longrightarrow> x \<in> set xs \<Longrightarrow> y \<in> set xs \<Longrightarrow> sl_id x = sl_id y \<Longrightarrow> x = y"
  by (auto simp: distinct_map dest: inj_onD)

lemma log_download_share_links:
  "snd (log_download db now a l t ua ip) = db
   \<or> (\<exists>r0 \<in> set (share_links db). link_matches now t r0
         \<and> current_downloads r0 < int4_max
         \<and> fst (log_download db now a l t ua ip) = Inr l
         \<and> share_links (snd (log_download db now a l t ua ip)) =
             map (increment_row now (sl_id r0)) (share_links db))"
proof (cases "\<exists>k. recent_attempts db now ip < 20 \<and> recent_failures db now t < 10
               \<and> select_link_id db now t = Some k
               \<and> \<not> list_ex (\<lambda>r. sl_id r = k \<and> current_downloads r + 1 > int4_max)
                      (share_links db)")
  case False
  then show ?thesis
    by (auto simp: log_download_eq increment_after_inserts split: option.splits)
next
  case True
  then obtain k where k: "recent_attempts db now ip < 20" "recent_failures db now t < 10"
      "select_link_id db now t = Some k"
      "\<not> list_ex (\<lambda>r. sl_id r = k \<and> current_downloads r + 1 > int4_max) (share_links db)"
    by blast
  then obtain r0 where r0: "r0 \<in> set (share_links db)" "link_matches now t r0" "sl_id r0 = k"
    using select_link_id_Some by blast
  with k(4) have "current_downloads r0 < int4_max" by (auto simp: list_ex_iff)
  with r0 k show ?thesis
    by (intro disjI2 bexI [of _ r0])
       (simp_all add: log_download_eq increment_after_inserts)
qed

lemma log_download_2_share_links:
  "snd (log_download_2 db now l t ua) = db
   \<or> (\<exists>r0 \<in> set (share_links db). link_matches now t r0
         \<and> share_links (snd (log_download_2 db now l t ua)) =
             map (increment_row now (sl_id r0)) (share_links db))"
proof (cases "\<exists>k. select_link_id db now t = Some k
               \<and> \<not> list_ex (\<lambda>r. sl_id r = k \<and> current_downloads r + 1 > int4_max)
                      (share_links db)")
  case False
  then show ?thesis
    by (auto simp: log_download_2_def log_download_2_body_def transaction_def Let_def
          increment_downloads_def insert_log_def split: option.splits)
next
  case True
  then obtain k where k: "select_link_id db now t = Some k"
      "\<not> list_ex (\<lambda>r. sl_id r = k \<and> current_downloads r + 1 > int4_max) (share_links db)"
    by blast
  then obtain r0 where "r0 \<in> set (share_links db)" "link_matches now t r0" "sl_id r0 = k"
    using select_link_id_Some by blast
  with k show ?thesis
    by (intro disjI2 bexI [of _ r0])
       (simp_all add: log_download_2_def log_download_2_body_def transaction_def Let_def
          increment_downloads_def insert_log_def)
qed

text \<open>What an increment does to the row with a given id.\<close>

lemma increment_step:
  assumes pk: "distinct (map sl_id xs)" and r: "r \<in> set xs" and r0: "r0 \<in> set xs"
    and m: "link_matches now t r0"
    and r': "r' \<in> set (map (increment_row now (sl_id r0)) xs)" and same: "sl_id r' = sl_id r"
  shows "(r' = r \<or> (r = r0 \<and> r' = r\<lparr>current_downloads := current_downloads r + 1,
                                       sl_updated_at := now\<rparr>))"
proof -
  from r' obtain x where x: "x \<in> set xs" "r' = increment_row now (sl_id r0) x" by auto
  then have "sl_id x = sl_id r" using same by (simp add: increment_row_def split: if_splits)
  with pk x(1) r have xr: "x = r" by (rule pk_same_row)
  show ?thesis
  proof (cases "sl_id r = sl_id r0")
    case True
    with pk r r0 have "r = r0" by (rule pk_same_row)
    with x xr show ?thesis by (simp add: increment_row_def)
  next
    case False
    with x xr show ?thesis by (simp add: increment_row_def)
  qed
qed

lemma link_matches_room:
  "link_matches now t r \<Longrightarrow> (case max_downloads r of None \<Rightarrow> True | Some m \<Rightarrow> current_downloads r < m)"
  by (simp add: link_matches_def)

lemma link_step_refl: "link_step op r r"
  by (simp add: link_step_def)

lemma link_step_increment:
  assumes "link_matches now t r" "is_log_download op"
  shows "link_step op r (r\<lparr>current_downloads := current_downloads r + 1, sl_updated_at := now\<rparr>)"
  using link_matches_room [OF assms(1)] assms(2)
  by (auto simp: link_step_def within_limit_def split: option.splits)

lemma perform_step:
  assumes pk: "primary_key db" and r: "r \<in> set (share_links db)"
    and r': "r' \<in> set (share_links (perform op db))" and same: "sl_id r' = sl_id r"
  shows "link_step op r r'"
proof (cases op)
  case (Get_share_link_by_token now t)
  with r' have "r' \<in> set (share_links db)" by simp
  with pk r same have "r' = r" unfolding primary_key_def by (metis pk_same_row)
  then show ?thesis by (simp add: link_step_refl)
next
  case (Log_download now a l t ua ip)
  from log_download_share_links [of db now a l t ua ip]
  show ?thesis
  proof
    assume "snd (log_download db now a l t ua ip) = db"
    with r' Log_download have "r' \<in> set (share_links db)" by simp
    with pk r same have "r' = r" unfolding primary_key_def by (metis pk_same_row)
    then show ?thesis by (simp add: link_step_refl)
  next
    assume "\<exists>r0 \<in> set (share_links db). link_matches now t r0
         \<and> current_downloads r0 < int4_max
         \<and> fst (log_download db now a l t ua ip) = Inr l
         \<and> share_links (snd (log_download db now a l t ua ip)) =
             map (increment_row now (sl_id r0)) (share_links db)"
    then obtain r0 where r0: "r0 \<in> set (share_links db)" "link_matches now t r0"
      "share_links (snd (log_download db now a l t ua ip)) =
             map (increment_row now (sl_id r0)) (share_links db)" by blast
    from r' Log_download r0(3)
    have "r' \<in> set (map (increment_row now (sl_id r0)) (share_links db))" by simp
    from increment_step [OF pk [unfolded primary_key_def] r r0(1) r0(2) this same]
    show ?thesis
      using link_step_refl link_step_increment [OF r0(2), of op] Log_download by auto
  qed
next
  case (Log_download_2 now l t ua)
  from log_download_2_share_links [of db now l t ua]
  show ?thesis
  proof
    assume "snd (log_download_2 db now l t ua) = db"
    with r' Log_download_2 have "r' \<in> set (share_links db)" by simp
    with pk r same have "r' = r" unfolding primary_key_def by (metis pk_same_row)
    then show ?thesis by (simp add: link_step_refl)
  next
    assume "\<exists>r0 \<in> set (share_links db). link_matches now t r0
         \<and> share_links (snd (log_download_2 db now l t ua)) =
             map (increment_row now (sl_id r0)) (share_links db)"
    then obtain r0 where r0: "r0 \<in> set (share_links db)" "link_matches now t r0"
      "share_links (snd (log_download_2 db now l t ua)) =
             map (increment_row now (sl_id r0)) (share_links db)" by blast
    from r' Log_download_2 r0(3)
    have "r' \<in> set (map (increment_row now (sl_id r0)) (share_links db))" by simp
    from increment_step [OF pk [unfolded primary_key_def] r r0(1) r0(2) this same]
    show ?thesis
      using link_step_refl link_step_increment [OF r0(2), of op] Log_download_2 by auto
  qed
next
  case (Insert_share_link now new_id uid fid tok ex mx)
  have "r' \<in> set (share_links db)"
  proof (cases "insert_share_link db now new_id uid fid tok ex mx")
    case (Inl e)
    with r' Insert_share_link show ?thesis by simp
  next
    case (Inr db')
    then have fresh: "\<not> list_ex (\<lambda>r. sl_id r = new_id \<or> token r = tok) (share_links db)"
      and db': "share_links db' = share_links db @
                  [\<lparr>sl_id = new_id, file_id = fid, token = tok, expires_at = ex,
                    max_downloads = mx, current_downloads = 0,
                    password_hash = None, is_active = True,
                    sl_created_at = now, sl_updated_at = now\<rparr>]"
      by (auto simp: insert_share_link_def split: if_splits)
    from fresh r have "sl_id r \<noteq> new_id" by (auto simp: list_ex_iff)
    with r' Insert_share_link Inr db' same show ?thesis by auto
  qed
  with pk r same have "r' = r" unfolding primary_key_def by (metis pk_same_row)
  then show ?thesis by (simp add: link_step_refl)
next
  case (Delete_file uid fileId)
  with r' have "r' \<in> set (share_links db)" by (simp add: delete_file_def Let_def)
  with pk r same have "r' = r" unfolding primary_key_def by (metis pk_same_row)
  then show ?thesis by (simp add: link_step_refl)
qed

lemma increment_row_keeps [simp]:
  "sl_id (increment_row now k x) = sl_id x" "token (increment_row now k x) = token x"
  "max_downloads (increment_row now k x) = max_downloads x"
  "expires_at (increment_row now k x) = expires_at x"
  "is_active (increment_row now k x) = is_active x"
  by (simp_all add: increment_row_def)

lemma map_increment_keeps [simp]:
  "map sl_id (map (increment_row now k) xs) = map sl_id xs"
  "map token (map (increment_row now k) xs) = map token xs"
  by (simp_all add: comp_def)

lemma perform_share_links:
  "(\<exists>now k. share_links (perform op db) = map (increment_row now k) (share_links db))
   \<or> (\<exists>P. share_links (perform op db) = filter P (share_links db))
   \<or> (\<exists>n. share_links (perform op db) = share_links db @ [n]
          \<and> \<not> list_ex (\<lambda>r. sl_id r = sl_id n \<or> token r = token n) (share_links db))"
proof (cases op)
  case (Get_share_link_by_token now t)
  have "share_links db = filter (\<lambda>_. True) (share_links db)" by simp
  with Get_share_link_by_token show ?thesis by (metis perform.simps(1))
next
  case (Log_download now a l t ua ip)
  from log_download_share_links [of db now a l t ua ip] show ?thesis
  proof
    assume "snd (log_download db now a l t ua ip) = db"
    then have "share_links (perform op db) = filter (\<lambda>_. True) (share_links db)"
      using Log_download by simp
    then show ?thesis by blast
  next
    assume "\<exists>r0 \<in> set (share_links db). link_matches now t r0
         \<and> current_downloads r0 < int4_max
         \<and> fst (log_download db now a l t ua ip) = Inr l
         \<and> share_links (snd (log_download db now a l t ua ip)) =
             map (increment_row now (sl_id r0)) (share_links db)"
    then show ?thesis using Log_download by auto
  qed
next
  case (Log_download_2 now l t ua)
  from log_download_2_share_links [of db now l t ua] show ?thesis
  proof
    assume "snd (log_download_2 db now l t ua) = db"
    then have "share_links (perform op db) = filter (\<lambda>_. True) (share_links db)"
      using Log_download_2 by simp
    then show ?thesis by blast
  next
    assume "\<exists>r0 \<in> set (share_links db). link_matches now t r0
         \<and> share_links (snd (log_download_2 db now l t ua)) =
             map (increment_row now (sl_id r0)) (share_links db)"
    then show ?thesis using Log_download_2 by auto
  qed
next
  case (Insert_share_link now new_id uid fid tok ex mx)
  show ?thesis
  proof (cases "insert_share_link db now new_id uid fid tok ex mx")
    case (Inl e)
    then have "share_links (perform op db) = filter (\<lambda>_. True) (share_links db)"
      using Insert_share_link by simp
    then show ?thesis by blast
  next
    case (Inr db')
    then have "\<not> list_ex (\<lambda>r. sl_id r = new_id \<or> token r = tok) (share_links db)"
      and "share_links db' = share_links db @
                  [\<lparr>sl_id = new_id, file_id = fid, token = tok, expires_at = ex,
                    max_downloads = mx, current_downloads = 0,
                    password_hash = None, is_active = True,
                    sl_created_at = now, sl_updated_at = now\<rparr>]"
      by (auto simp: insert_share_link_def split: if_splits)
    then show ?thesis using Insert_share_link Inr by (intro disjI2) auto
  qed
next
  case (Delete_file uid fileId)
  then show ?thesis by (intro disjI2 disjI1) (auto simp: delete_file_def Let_def)
qed

lemma perform_keys:
  assumes "distinct (map sl_id (share_links db))" "distinct (map token (share_links db))"
  shows "distinct (map sl_id (share_links (perform op db)))
       \<and> distinct (map token (share_links (perform op db)))"
proof -
  consider (inc) now k where
      "share_links (perform op db) = map (increment_row now k) (share_links db)"
    | (del) P where "share_links (perform op db) = filter P (share_links db)"
    | (ins) n where "share_links (perform op db) = share_links db @ [n]"
        "\<not> list_ex (\<lambda>r. sl_id r = sl_id n \<or> token r = token n) (share_links db)"
    using perform_share_links [of op db] by blast
  then show ?thesis
  proof cases
    case inc
    have "map sl_id (share_links (perform op db)) = map sl_id (share_links db)"
      "map token (share_links (perform op db)) = map token (share_links db)"
      unfolding inc by (rule map_increment_keeps)+
    with assms show ?thesis by simp
  next
    case del
    with assms show ?thesis by (simp add: distinct_map_filter)
  next
    case ins
    from ins(2) have "sl_id n \<notin> sl_id ` set (share_links db)"
      "token n \<notin> token ` set (share_links db)"
      by (auto simp: list_ex_iff)
    with assms ins(1) show ?thesis by simp
  qed
qed

lemma perform_primary_key_only:
  assumes "distinct (map sl_id (share_links db))"
  shows "distinct (map sl_id (share_links (perform op db)))"
proof -
  consider (inc) now k where
      "share_links (perform op db) = map (increment_row now k) (share_links db)"
    | (del) P where "share_links (perform op db) = filter P (share_links db)"
    | (ins) n where "share_links (perform op db) = share_links db @ [n]"
        "\<not> list_ex (\<lambda>r. sl_id r = sl_id n \<or> token r = token n) (share_links db)"
    using perform_share_links [of op db] by blast
  then show ?thesis
  proof cases
    case inc
    have "map sl_id (share_links (perform op db)) = map sl_id (share_links db)"
      unfolding inc by (rule map_increment_keeps)
    with assms show ?thesis by simp
  next
    case del
    with assms show ?thesis by (simp add: distinct_map_filter)
  next
    case ins
    from ins(2) have "sl_id n \<notin> sl_id ` set (share_links db)"
      by (auto simp: list_ex_iff)
    with assms ins(1) show ?thesis by simp
  qed
qed

lemma perform_primary_key:
  assumes "primary_key db" shows "primary_key (perform op db)"
  using perform_primary_key_only [of db op] assms by (simp add: primary_key_def)

lemma rpc_log_download_store:
  "snd (rpc_log_download env db tok ua ip) = db
   \<or> (\<exists>addr. snd (rpc_log_download env db tok ua ip)
         = perform (Log_download (consume_now env) (attempt_uuid env) (log_uuid env)
             tok ua addr) db)"
proof (cases "\<exists>addr. consume_failed env = None \<and> inet_in env ip = Inr addr")
  case True
  then obtain addr where "consume_failed env = None" "inet_in env ip = Inr addr" by blast
  then have "snd (rpc_log_download env db tok ua ip)
         = perform (Log_download (consume_now env) (attempt_uuid env) (log_uuid env)
             tok ua addr) db"
    by (simp add: rpc_log_download_def split: prod.splits sum.splits)
  then show ?thesis by blast
next
  case False
  then have "snd (rpc_log_download env db tok ua ip) = db"
    by (auto simp: rpc_log_download_def split: option.splits sum.splits)
  then show ?thesis by simp
qed

lemma serve_token_store:
  "snd (serve_token env req tok db) = db
   \<or> snd (serve_token env req tok db)
       = snd (rpc_log_download env db tok (or_else (user_agent_header req) ''unknown'')
                (ip_address req))"
  by (auto simp: serve_token_def split: list.splits prod.splits sum.splits option.splits)

lemma download_file_store:
  "snd (download_file env req db) = db
   \<or> (\<exists>tok ua ip. snd (download_file env req db)
         = perform (Log_download (consume_now env) (attempt_uuid env) (log_uuid env)
             tok ua ip) db)"
proof (cases "\<exists>v tok. http_method req \<noteq> ''OPTIONS'' \<and> json req = Body v \<and> \<not> falsy v
                \<and> link_token_text env v = Some tok")
  case True
  then obtain v tok where h: "http_method req \<noteq> ''OPTIONS''" "json req = Body v" "\<not> falsy v"
      "link_token_text env v = Some tok" by blast
  then have d: "download_file env req db = serve_token env req tok db"
    by (simp add: download_file_def)
  let ?ua = "or_else (user_agent_header req) ''unknown''"
  from serve_token_store [of env req tok db] rpc_log_download_store [of env db tok ?ua "ip_address req"]
  show ?thesis unfolding d by metis
next
  case False
  then have "snd (download_file env req db) = db"
    by (auto simp: download_file_def split: json_body.splits option.splits)
  then show ?thesis by simp
qed

section \<open>The invariant of a link\<close>

text \<open>
  An operation that runs on its own, from its first statement to its last with no other
  call in between, keeps the invariant of every link: a link that was within its limit
  is still within it, its \<^verbatim>\<open>current_downloads\<close> has not gone down, and its limit
  and token are as they were. The counter of a link changes only in a call of
  \<^verbatim>\<open>log_download\<close>, by exactly one, and only when it was below the limit (where
  there is one). The primary key holds again after the operation, and the only
  operation the edge function performs on the store is a call of
  \<^verbatim>\<open>log_download\<close>.
\<close>

lemma operations_alone_keep_invariant:
  assumes "primary_key db" "r \<in> set (share_links db)"
    "r' \<in> set (share_links (perform op db))" "sl_id r' = sl_id r"
  shows "(within_limit r \<longrightarrow> within_limit r')
     \<and> current_downloads r \<le> current_downloads r'
     \<and> max_downloads r' = max_downloads r \<and> token r' = token r
     \<and> (current_downloads r' \<noteq> current_downloads r \<longrightarrow>
           is_log_download op \<and> current_downloads r' = current_downloads r + 1
           \<and> (\<forall>m. max_downloads r = Some m \<longrightarrow> current_downloads r < m))
     \<and> primary_key (perform op db)
     \<and> (snd (download_file env req db) = db
        \<or> (\<exists>tok ua ip. snd (download_file env req db)
              = perform (Log_download (consume_now env) (attempt_uuid env) (log_uuid env)
                  tok ua ip) db))"
proof -
  have "link_step op r r'" using assms by (rule perform_step)
  then have "(within_limit r \<longrightarrow> within_limit r')
     \<and> current_downloads r \<le> current_downloads r'
     \<and> max_downloads r' = max_downloads r \<and> token r' = token r
     \<and> (current_downloads r' \<noteq> current_downloads r \<longrightarrow>
           is_log_download op \<and> current_downloads r' = current_downloads r + 1
           \<and> (\<forall>m. max_downloads r = Some m \<longrightarrow> current_downloads r < m))"
    by (auto simp: link_step_def)
  moreover have "primary_key (perform op db)" using assms(1) by (rule perform_primary_key)
  moreover note download_file_store [of env req db]
  ultimately show ?thesis by blast
qed

text \<open>
  C2. The claim that every operation keeps \<^verbatim>\<open>current_downloads\<close> within
  \<^verbatim>\<open>max_downloads\<close> fails for a call of \<^verbatim>\<open>log_download\<close> that overlaps
  another. Two calls for a link with limit 1 and count 0: the second reads the link
  while the count is 0, the first writes and commits, leaving 1 of 1, within the limit;
  then the second makes its writes and returns a log id, and the link stands at 2 of
  1. The increment is made after a test of the limit, but the test was of the row as
  it was before the other call wrote.
\<close>

theorem overlapped_download_breaks_limit:
  "call_reads (sample_db sample_link [] [] True 0) (sample_call 1) = Inr (Some 1)
   \<and> map (\<lambda>r. (current_downloads r, max_downloads r, within_limit r))
        (share_links (snd (call_writes (sample_db sample_link [] [] True 0) (sample_call 0)
           (call_reads (sample_db sample_link [] [] True 0) (sample_call 0)))))
      = [(1, Some 1, True)]
   \<and> fst (call_writes
          (snd (call_writes (sample_db sample_link [] [] True 0) (sample_call 0)
             (call_reads (sample_db sample_link [] [] True 0) (sample_call 0))))
          (sample_call 1)
          (call_reads (sample_db sample_link [] [] True 0) (sample_call 1))) = Inr 301
   \<and> map (\<lambda>r. (current_downloads r, max_downloads r, within_limit r))
        (share_links (snd (call_writes
          (snd (call_writes (sample_db sample_link [] [] True 0) (sample_call 0)
             (call_reads (sample_db sample_link [] [] True 0) (sample_call 0))))
          (sample_call 1)
          (call_reads (sample_db sample_link [] [] True 0) (sample_call 1)))))
      = [(2, Some 1, False)]"
  by (intro conjI; code_simp)

section \<open>What a successful consume leaves alone\<close>

text \<open>
  C10. A call of \<^verbatim>\<open>log_download\<close> that succeeds changes one row of
  \<^verbatim>\<open>share_links\<close>, a row with the given token: its \<^verbatim>\<open>current_downloads\<close> goes
  up by one and its \<^verbatim>\<open>updated_at\<close> is set by the trigger. Every other column of
  that row and every other row of the table is as before, and so is the table
  \<^verbatim>\<open>files\<close>.
\<close>

theorem log_download_frame:
  assumes "primary_key db"
    "log_download db now attempt_id log_id link_token user_agent_text ip_addr = (Inr v, db')"
  shows "\<exists>r \<in> set (share_links db).
           token r = link_token
           \<and> share_links db' =
               map (\<lambda>x. if x = r
                         then r\<lparr>current_downloads := current_downloads r + 1,
                                sl_updated_at := now\<rparr>
                         else x) (share_links db)
           \<and> files db' = files db"
proof -
  let ?run = "log_download db now attempt_id log_id link_token user_agent_text ip_addr"
  from assms(2) have ok: "\<not> recent_attempts db now ip_addr \<ge> 20"
      "\<not> recent_failures db now link_token \<ge> 10"
    by (auto simp: log_download_eq split: if_splits)
  with assms(2) obtain k where k: "select_link_id db now link_token = Some k"
    by (cases "select_link_id db now link_token") (auto simp: log_download_eq)
  then obtain r where r: "r \<in> set (share_links db)" "link_matches now link_token r" "sl_id r = k"
    using select_link_id_Some by blast
  from assms(2) ok k
  have db': "increment_downloads now k
               (insert_log log_id now k (Some user_agent_text) (Some ip_addr)
                 (insert_attempt attempt_id now ip_addr link_token True db)) = Some db'"
    by (auto simp: log_download_eq split: option.splits)
  then have parts: "share_links db' = map (increment_row now k) (share_links db)"
      "files db' = files db"
    by (auto simp: increment_after_inserts split: if_splits)
  have "share_links db' = map (increment_row now (sl_id r)) (share_links db)"
    using parts(1) r(3) by simp
  also have "\<dots> = map (\<lambda>x. if x = r
                         then r\<lparr>current_downloads := current_downloads r + 1,
                                sl_updated_at := now\<rparr>
                         else x) (share_links db)"
    using assms(1) r(1) unfolding primary_key_def by (rule increment_only)
  finally have links: "share_links db' = map (\<lambda>x. if x = r
                         then r\<lparr>current_downloads := current_downloads r + 1,
                                sl_updated_at := now\<rparr>
                         else x) (share_links db)" .
  note parts(2)
  moreover have "token r = link_token" using r(2) by (simp add: link_matches_def)
  ultimately show ?thesis using r(1) links by blast
qed

theorem log_download_frame_witness:
  "primary_key (sample_db sample_link [] [] True 0)
   \<and> fst (log_download (sample_db sample_link [] [] True 0) 10 200 300 ''c0ffee''
            ''curl/8.5.0'' ''203.0.113.9'') = Inr 300
   \<and> share_links (snd (log_download (sample_db sample_link [] [] True 0) 10 200 300
        ''c0ffee'' ''curl/8.5.0'' ''203.0.113.9''))
      = [sample_link\<lparr>current_downloads := 1, sl_updated_at := 10\<rparr>]
   \<and> files (snd (log_download (sample_db sample_link [] [] True 0) 10 200 300
        ''c0ffee'' ''curl/8.5.0'' ''203.0.113.9'')) = [sample_file]"
proof -
  let ?d = "sample_db sample_link [] [] True 0"
  let ?run = "log_download ?d 10 200 300 ''c0ffee'' ''curl/8.5.0'' ''203.0.113.9''"
  have pk: "primary_key ?d" by (simp add: primary_key_def sample_db_def)
  have sel: "select_link_id ?d 10 ''c0ffee'' = Some 1"
    by (simp add: select_link_id_def sample_db_def sample_link_def link_matches_def)
  have ok: "fst ?run = Inr 300"
    using sel by (simp add: log_download_eq recent_attempts_def recent_failures_def
                    increment_after_inserts)
                 (simp add: sample_db_def sample_link_def int4_max_def)
  then have run: "?run = (Inr 300, snd ?run)" by (metis prod.collapse)
  from log_download_frame [OF pk run]
  have "share_links (snd ?run)
          = [sample_link\<lparr>current_downloads := 1, sl_updated_at := 10\<rparr>]"
       "files (snd ?run) = [sample_file]"
    by (simp_all add: sample_db_def sample_link_def)
  with pk ok show ?thesis by blast
qed

lemma get_share_link_by_token_rows:
  assumes "v \<in> set (get_share_link_by_token db now t)"
  shows "\<exists>sl \<in> set (share_links db). \<exists>f \<in> set (files db).
           link_matches now t sl \<and> f_id f = file_id sl \<and> v = view_of sl f"
proof -
  from assms have "v \<in> set (concat
         (map (\<lambda>sl. map (view_of sl) (filter (\<lambda>f. f_id f = file_id sl) (files db)))
           (filter (link_matches now t) (share_links db))))"
    unfolding get_share_link_by_token_def by (rule in_set_takeD)
  then show ?thesis by auto
qed

lemma matching_view:
  assumes "link_matches now t sl"
  shows "v_token (view_of sl f) = t \<and> v_is_active (view_of sl f)
     \<and> (case v_expires_at (view_of sl f) of None \<Rightarrow> True | Some e \<Rightarrow> e > now)
     \<and> (case v_max_downloads (view_of sl f) of
           None \<Rightarrow> True | Some m \<Rightarrow> v_current_downloads (view_of sl f) < m)"
  using assms by (simp add: link_matches_def view_of_def split: option.splits)

section \<open>Lookup by exact token\<close>

text \<open>
  C7. \<^verbatim>\<open>get_share_link_by_token\<close> returns at most one row. A row it returns is the
  view of a stored link and its file, its token is the token given, and the link is
  active, not expired at the time of the call, and below its download limit. A caller
  who is not signed in reads no row of \<^verbatim>\<open>share_links\<close> from the table itself.
\<close>

theorem get_share_link_by_token_exact:
  "length (get_share_link_by_token db now link_token) \<le> 1
   \<and> (\<forall>v \<in> set (get_share_link_by_token db now link_token).
         v_token v = link_token \<and> v_is_active v
         \<and> (case v_expires_at v of None \<Rightarrow> True | Some e \<Rightarrow> e > now)
         \<and> (case v_max_downloads v of None \<Rightarrow> True | Some m \<Rightarrow> v_current_downloads v < m)
         \<and> (\<exists>sl \<in> set (share_links db). \<exists>f \<in> set (files db).
               token sl = link_token \<and> f_id f = file_id sl \<and> v = view_of sl f))
   \<and> select_share_links db None = []"
proof (intro conjI ballI)
  show "length (get_share_link_by_token db now link_token) \<le> 1"
    by (simp add: get_share_link_by_token_def)
next
  fix v assume "v \<in> set (get_share_link_by_token db now link_token)"
  then obtain sl f where h: "sl \<in> set (share_links db)" "f \<in> set (files db)"
      "link_matches now link_token sl" "f_id f = file_id sl" "v = view_of sl f"
    using get_share_link_by_token_rows by blast
  from matching_view [OF h(3), of f]
  show "v_token v = link_token" "v_is_active v"
    "case v_expires_at v of None \<Rightarrow> True | Some e \<Rightarrow> e > now"
    "case v_max_downloads v of None \<Rightarrow> True | Some m \<Rightarrow> v_current_downloads v < m"
    unfolding h(5) by blast+
  from h(3) have "token sl = link_token" by (simp add: link_matches_def)
  with h show "\<exists>sl \<in> set (share_links db). \<exists>f \<in> set (files db).
               token sl = link_token \<and> f_id f = file_id sl \<and> v = view_of sl f"
    by blast
next
  show "select_share_links db None = []"
    by (simp add: select_share_links_def owns_file_def)
qed

theorem get_share_link_by_token_exact_witness:
  "get_share_link_by_token (sample_db sample_link [] [] True 0) 10 ''c0ffee''
     = [view_of sample_link sample_file]
   \<and> get_share_link_by_token (sample_db sample_link [] [] True 0) 10 ''c0ffe'' = []
   \<and> v_token (view_of sample_link sample_file) = ''c0ffee''
   \<and> v_is_active (view_of sample_link sample_file)
   \<and> v_current_downloads (view_of sample_link sample_file) < 1
   \<and> select_share_links (sample_db sample_link [] [] True 0) None = []"
proof -
  let ?d = "sample_db sample_link [] [] True 0"
  have g: "get_share_link_by_token ?d 10 ''c0ffee'' = [view_of sample_link sample_file]"
    by (simp add: get_share_link_by_token_def sample_db_def link_matches_def sample_link_def
          sample_file_def)
  have e: "get_share_link_by_token ?d 10 ''c0ffe'' = []"
    by (simp add: get_share_link_by_token_def sample_db_def link_matches_def sample_link_def)
  have m: "v_max_downloads (view_of sample_link sample_file) = Some 1"
    by (simp add: view_of_def sample_link_def)
  from get_share_link_by_token_exact [of ?d 10 "''c0ffee''"] g m
  have "v_token (view_of sample_link sample_file) = ''c0ffee''"
    "v_is_active (view_of sample_link sample_file)"
    "v_current_downloads (view_of sample_link sample_file) < 1"
    "select_share_links ?d None = []"
    by simp_all
  with g e show ?thesis by blast
qed

section \<open>The second test of the link in the edge function\<close>

text \<open>
  C9. A row that \<^verbatim>\<open>get_share_link_by_token\<close> returns passes the test the edge
  function makes of it at the same instant: it is active, not expired and below its
  limit. So when the handler's clock shows the time of the lookup, the handler never
  answers in the branch "Link is no longer valid".
\<close>

theorem recheck_passes:
  "(v \<in> set (get_share_link_by_token db now link_token) \<longrightarrow> \<not> no_longer_valid now v)
   \<and> (js_now env = lookup_now env \<longrightarrow> fst (download_file env req db) \<noteq> Link_no_longer_valid)"
proof (intro conjI impI)
  assume "v \<in> set (get_share_link_by_token db now link_token)"
  then obtain sl f where h: "link_matches now link_token sl" "v = view_of sl f"
    using get_share_link_by_token_rows by blast
  from matching_view [OF h(1), of f] h(2)
  show "\<not> no_longer_valid now v"
    by (auto simp: no_longer_valid_def is_expired_def limit_reached_def split: option.splits)
next
  assume same: "js_now env = lookup_now env"
  have first: "\<not> no_longer_valid (js_now env) x"
    if "get_share_link_by_token db (lookup_now env) tok = x # xs" for tok x xs
  proof -
    from that have "x \<in> set (get_share_link_by_token db (lookup_now env) tok)" by simp
    then obtain sl f where h: "link_matches (lookup_now env) tok sl" "x = view_of sl f"
      using get_share_link_by_token_rows by blast
    from matching_view [OF h(1), of f] h(2) same show ?thesis
      by (auto simp: no_longer_valid_def is_expired_def limit_reached_def split: option.splits)
  qed
  have "fst (serve_token env req tok db) \<noteq> Link_no_longer_valid" for tok
    using first [of tok]
    by (auto simp: serve_token_def split: list.splits prod.splits sum.splits option.splits)
  then show "fst (download_file env req db) \<noteq> Link_no_longer_valid"
    by (auto simp: download_file_def split: json_body.splits option.splits)
qed

theorem recheck_passes_witness:
  "view_of sample_link sample_file
     \<in> set (get_share_link_by_token (sample_db sample_link [] [] True 0) 10 ''c0ffee'')
   \<and> \<not> no_longer_valid 10 (view_of sample_link sample_file)
   \<and> js_now sample_env = lookup_now sample_env
   \<and> fst (download_file sample_env (sample_request ''c0ffee'')
            (sample_db sample_link [] [] True 0)) \<noteq> Link_no_longer_valid"
proof -
  let ?d = "sample_db sample_link [] [] True 0"
  have g: "view_of sample_link sample_file \<in> set (get_share_link_by_token ?d 10 ''c0ffee'')"
    by (simp add: get_share_link_by_token_def sample_db_def link_matches_def sample_link_def
          sample_file_def)
  have c: "js_now sample_env = lookup_now sample_env" by (simp add: sample_env_def)
  from recheck_passes [where v = "view_of sample_link sample_file" and db = ?d and now = 10
      and link_token = "''c0ffee''" and env = sample_env
      and req = "sample_request ''c0ffee''"] g c
  show ?thesis by blast
qed

section \<open>The answers of the edge function\<close>

lemma lookup_empty:
  assumes "\<forall>r \<in> set (share_links db). \<not> link_matches now tok r"
  shows "get_share_link_by_token db now tok = []"
proof -
  from assms have "filter (link_matches now tok) (share_links db) = []"
    by (simp add: filter_empty_conv)
  then show ?thesis by (simp add: get_share_link_by_token_def)
qed

lemma download_file_not_found:
  assumes "http_method req \<noteq> ''OPTIONS''" "json req = Body (Str tok)" "tok \<noteq> []"
    "lookup_failed env \<or> get_share_link_by_token db (lookup_now env) tok = []"
  shows "download_file env req db = (Link_not_found, db)"
  using assms by (auto simp: download_file_def link_token_text_def serve_token_def)

lemma download_file_consumes:
  assumes "http_method req \<noteq> ''OPTIONS''" "json req = Body (Str tok)" "tok \<noteq> []"
    "\<not> lookup_failed env" "get_share_link_by_token db (lookup_now env) tok = v # vs"
    "\<not> no_longer_valid (js_now env) v"
  shows "download_file env req db =
     (case rpc_log_download env db tok (or_else (user_agent_header req) ''unknown'')
             (ip_address req) of
        (Inl msg, db') \<Rightarrow> (Log_failed msg, db')
      | (Inr l, db') \<Rightarrow>
          (case create_signed_url env (v_storage_path v) 3600 of
             None \<Rightarrow> (Url_failed, db')
           | Some url \<Rightarrow> (Signed url (v_original_filename v), db')))"
  using assms by (simp add: download_file_def link_token_text_def serve_token_def)

lemma unknown_token_no_match:
  assumes "\<forall>r \<in> set (share_links db). token r \<noteq> tok"
  shows "\<forall>r \<in> set (share_links db). \<not> link_matches now tok r"
  using assms by (simp add: link_matches_def)

lemma log_download_rolls_back:
  "snd (log_download db now a l t ua ip) = db \<or> (\<exists>v. fst (log_download db now a l t ua ip) = Inr v)"
  by (simp add: log_download_def transaction_def split: outcome.splits)

text \<open>
  C5. A request with a token that no link has is answered 404 "Invalid or expired
  link", and the handler returns before it calls \<^verbatim>\<open>log_download\<close>: the store is
  left as it was, so no download log is created, and no attempt is recorded either.
  A direct call of \<^verbatim>\<open>log_download\<close> with such a token inserts the failed attempt
  and then raises, and the exception undoes the insert.
\<close>

theorem unknown_token_leaves_no_trace:
  assumes "http_method req \<noteq> ''OPTIONS''" "json req = Body (Str tok)" "tok \<noteq> []"
    "\<forall>r \<in> set (share_links db). token r \<noteq> tok"
  shows "download_file env req db = (Link_not_found, db)
     \<and> download_file_response env req db
         = \<lparr>status = 404, payload = Error ''Invalid or expired link''\<rparr>
     \<and> (\<exists>e. log_download db now attempt_id log_id tok user_agent_text ip_addr = (Inl e, db))
     \<and> (recent_attempts db now ip_addr < 20 \<and> recent_failures db now tok < 10 \<longrightarrow>
          log_download_body db now attempt_id log_id tok user_agent_text ip_addr
            = Raised Invalid_link (insert_attempt attempt_id now ip_addr tok False db))"
proof -
  have none: "\<forall>r \<in> set (share_links db). \<not> link_matches t tok r" for t
    using assms(4) by (rule unknown_token_no_match)
  then have "get_share_link_by_token db (lookup_now env) tok = []" by (rule lookup_empty)
  then have d: "download_file env req db = (Link_not_found, db)"
    using download_file_not_found [OF assms(1-3), of env db] by blast
  then have r: "download_file_response env req db
         = \<lparr>status = 404, payload = Error ''Invalid or expired link''\<rparr>"
    by (simp add: download_file_response_def)
  have sel: "select_link_id db now tok = None"
    using none [of now] by (simp add: select_link_id_None)
  then have l: "\<exists>e. log_download db now attempt_id log_id tok user_agent_text ip_addr
                 = (Inl e, db)"
    by (simp add: log_download_eq)
  have b: "recent_attempts db now ip_addr < 20 \<and> recent_failures db now tok < 10 \<longrightarrow>
          log_download_body db now attempt_id log_id tok user_agent_text ip_addr
            = Raised Invalid_link (insert_attempt attempt_id now ip_addr tok False db)"
    using sel by (simp add: log_download_body_def log_download_reads_def
                    log_download_writes_def)
  from d r l b show ?thesis by blast
qed

theorem unknown_token_leaves_no_trace_witness:
  "download_file sample_env (sample_request ''deadbeef'') (sample_db sample_link [] [] True 0)
     = (Link_not_found, sample_db sample_link [] [] True 0)
   \<and> download_file_response sample_env (sample_request ''deadbeef'')
        (sample_db sample_link [] [] True 0)
       = \<lparr>status = 404, payload = Error ''Invalid or expired link''\<rparr>
   \<and> download_attempts (snd (download_file sample_env (sample_request ''deadbeef'')
        (sample_db sample_link [] [] True 0))) = []
   \<and> download_logs (snd (download_file sample_env (sample_request ''deadbeef'')
        (sample_db sample_link [] [] True 0))) = []
   \<and> log_download (sample_db sample_link [] [] True 0) 10 200 300 ''deadbeef''
        ''curl/8.5.0'' ''203.0.113.9''
       = (Inl Invalid_link, sample_db sample_link [] [] True 0)
   \<and> log_download_body (sample_db sample_link [] [] True 0) 10 200 300 ''deadbeef''
        ''curl/8.5.0'' ''203.0.113.9''
       = Raised Invalid_link
           ((sample_db sample_link [] [] True 0)
              \<lparr>download_attempts :=
                 [\<lparr>da_id = 200, da_ip_address = ''203.0.113.9'', da_token = ''deadbeef'',
                   attempted_at = 10, success = False\<rparr>]\<rparr>)"
proof -
  let ?d = "sample_db sample_link [] [] True 0"
  let ?req = "sample_request ''deadbeef''"
  have h: "http_method ?req \<noteq> ''OPTIONS''" "json ?req = Body (Str ''deadbeef'')"
    "''deadbeef'' \<noteq> []" "\<forall>r \<in> set (share_links ?d). token r \<noteq> ''deadbeef''"
    by (simp_all add: sample_request_def sample_db_def sample_link_def)
  have w: "recent_attempts ?d 10 ''203.0.113.9'' < 20 \<and> recent_failures ?d 10 ''deadbeef'' < 10"
    by (simp add: recent_attempts_def recent_failures_def sample_db_def)
  have s: "select_link_id ?d 10 ''deadbeef'' = None"
    by (simp add: select_link_id_def sample_db_def sample_link_def link_matches_def)
  note t = unknown_token_leaves_no_trace [OF h, where env = sample_env and now = 10
      and attempt_id = 200 and log_id = 300 and user_agent_text = "''curl/8.5.0''"
      and ip_addr = "''203.0.113.9''"]
  from t have d: "download_file sample_env ?req ?d = (Link_not_found, ?d)" by blast
  from t have r: "download_file_response sample_env ?req ?d
       = \<lparr>status = 404, payload = Error ''Invalid or expired link''\<rparr>" by blast
  from d have a: "download_attempts (snd (download_file sample_env ?req ?d)) = []"
    "download_logs (snd (download_file sample_env ?req ?d)) = []"
    by (simp_all add: sample_db_def)
  have l: "log_download ?d 10 200 300 ''deadbeef'' ''curl/8.5.0'' ''203.0.113.9''
       = (Inl Invalid_link, ?d)"
    using w s by (simp add: log_download_eq)
  from t w have "log_download_body ?d 10 200 300 ''deadbeef'' ''curl/8.5.0'' ''203.0.113.9''
       = Raised Invalid_link (insert_attempt 200 10 ''203.0.113.9'' ''deadbeef'' False ?d)"
    by blast
  then have b: "log_download_body ?d 10 200 300 ''deadbeef'' ''curl/8.5.0'' ''203.0.113.9''
       = Raised Invalid_link
           (?d\<lparr>download_attempts :=
                 [\<lparr>da_id = 200, da_ip_address = ''203.0.113.9'', da_token = ''deadbeef'',
                   attempted_at = 10, success = False\<rparr>]\<rparr>)"
    by (simp add: insert_attempt_def sample_db_def)
  from d r a l b show ?thesis by blast
qed

lemma unusable_no_match:
  assumes "token_unique db" "r \<in> set (share_links db)" "token r = tok"
    "\<not> is_active r \<or> (\<exists>e. expires_at r = Some e \<and> e \<le> now)
       \<or> (\<exists>m. max_downloads r = Some m \<and> current_downloads r \<ge> m)"
  shows "\<forall>x \<in> set (share_links db). \<not> link_matches now tok x"
proof
  fix x assume x: "x \<in> set (share_links db)"
  show "\<not> link_matches now tok x"
  proof
    assume m: "link_matches now tok x"
    then have "token x = token r" using assms(3) by (simp add: link_matches_def)
    with assms(1,2) x have "x = r"
      by (auto simp: token_unique_def distinct_map dest: inj_onD)
    with m assms(4) show False by (auto simp: link_matches_def)
  qed
qed

text \<open>
  C6, as the code has it. A request whose token is that of a link that is not usable
  gets the same answer whatever makes the link unusable (inactive, expired, or at its
  limit): 404 with the text "Invalid or expired link", the answer an unknown token gets.
  A direct call of \<^verbatim>\<open>log_download\<close> that passes the rate limiter likewise raises
  the one exception "Invalid or expired share link".
\<close>

theorem unusable_link_one_answer:
  assumes "http_method req \<noteq> ''OPTIONS''" "json req = Body (Str tok)" "tok \<noteq> []"
    "token_unique db" "r \<in> set (share_links db)" "token r = tok"
    "\<not> is_active r \<or> (\<exists>e. expires_at r = Some e \<and> e \<le> lookup_now env)
       \<or> (\<exists>m. max_downloads r = Some m \<and> current_downloads r \<ge> m)"
  shows "download_file_response env req db
           = \<lparr>status = 404, payload = Error ''Invalid or expired link''\<rparr>
     \<and> (recent_attempts db (lookup_now env) ip_addr < 20
          \<and> recent_failures db (lookup_now env) tok < 10 \<longrightarrow>
         fst (log_download db (lookup_now env) attempt_id log_id tok user_agent_text ip_addr)
           = Inl Invalid_link)"
proof -
  have none: "\<forall>x \<in> set (share_links db). \<not> link_matches (lookup_now env) tok x"
    using assms(4-7) by (rule unusable_no_match)
  then have "get_share_link_by_token db (lookup_now env) tok = []" by (rule lookup_empty)
  then have "download_file env req db = (Link_not_found, db)"
    using download_file_not_found [OF assms(1-3), of env db] by blast
  then have r: "download_file_response env req db
         = \<lparr>status = 404, payload = Error ''Invalid or expired link''\<rparr>"
    by (simp add: download_file_response_def)
  have "select_link_id db (lookup_now env) tok = None"
    using none by (simp add: select_link_id_None)
  then have "recent_attempts db (lookup_now env) ip_addr < 20
          \<and> recent_failures db (lookup_now env) tok < 10 \<longrightarrow>
         fst (log_download db (lookup_now env) attempt_id log_id tok user_agent_text ip_addr)
           = Inl Invalid_link"
    by (simp add: log_download_eq)
  with r show ?thesis by blast
qed

theorem unusable_link_one_answer_witness:
  "token_unique (sample_db (sample_link\<lparr>expires_at := Some 9\<rparr>) [] [] True 0)
   \<and> expires_at (sample_link\<lparr>expires_at := Some 9\<rparr>) = Some 9 \<and> (9::int) \<le> lookup_now sample_env
   \<and> download_file_response sample_env (sample_request ''c0ffee'')
        (sample_db (sample_link\<lparr>expires_at := Some 9\<rparr>) [] [] True 0)
       = \<lparr>status = 404, payload = Error ''Invalid or expired link''\<rparr>
   \<and> fst (log_download (sample_db (sample_link\<lparr>expires_at := Some 9\<rparr>) [] [] True 0)
        10 200 300 ''c0ffee'' ''curl/8.5.0'' ''203.0.113.9'') = Inl Invalid_link"
proof -
  let ?r = "sample_link\<lparr>expires_at := Some 9\<rparr>"
  let ?d = "sample_db ?r [] [] True 0"
  let ?req = "sample_request ''c0ffee''"
  have h: "http_method ?req \<noteq> ''OPTIONS''" "json ?req = Body (Str ''c0ffee'')"
    "''c0ffee'' \<noteq> []" "token_unique ?d" "?r \<in> set (share_links ?d)" "token ?r = ''c0ffee''"
    by (simp_all add: sample_request_def sample_db_def sample_link_def token_unique_def)
  have e: "expires_at ?r = Some 9" "(9::int) \<le> lookup_now sample_env"
    by (simp_all add: sample_env_def)
  then have u: "\<not> is_active ?r \<or> (\<exists>e. expires_at ?r = Some e \<and> e \<le> lookup_now sample_env)
       \<or> (\<exists>m. max_downloads ?r = Some m \<and> current_downloads ?r \<ge> m)"
    by blast
  have w: "recent_attempts ?d (lookup_now sample_env) ''203.0.113.9'' < 20
      \<and> recent_failures ?d (lookup_now sample_env) ''c0ffee'' < 10"
    by (simp add: recent_attempts_def recent_failures_def sample_db_def)
  have n: "lookup_now sample_env = 10" by (simp add: sample_env_def)
  from unusable_link_one_answer [OF h u, where ip_addr = "''203.0.113.9''"
      and attempt_id = 200 and log_id = 300 and user_agent_text = "''curl/8.5.0''"] w
  have "download_file_response sample_env ?req ?d
       = \<lparr>status = 404, payload = Error ''Invalid or expired link''\<rparr>"
    "fst (log_download ?d (lookup_now sample_env) 200 300 ''c0ffee'' ''curl/8.5.0''
       ''203.0.113.9'') = Inl Invalid_link"
    by blast+
  with h(4) e n show ?thesis by simp
qed

text \<open>
  The claim C6 as it is written fails: a request for an expired link and a request for
  a link at its limit get the same answer, the answer for a token that does not exist,
  and neither leaves an attempt in the ledger.
\<close>

theorem unusable_link_counterexample:
  "download_file_response sample_env (sample_request ''c0ffee'')
      (sample_db (sample_link\<lparr>expires_at := Some 9\<rparr>) [] [] True 0)
    = download_file_response sample_env (sample_request ''c0ffee'')
      (sample_db (sample_link\<lparr>current_downloads := 1\<rparr>) [] [] True 0)
   \<and> download_file_response sample_env (sample_request ''c0ffee'')
      (sample_db (sample_link\<lparr>expires_at := Some 9\<rparr>) [] [] True 0)
    = download_file_response sample_env (sample_request ''deadbeef'')
      (sample_db sample_link [] [] True 0)
   \<and> download_attempts (snd (download_file sample_env (sample_request ''c0ffee'')
      (sample_db (sample_link\<lparr>expires_at := Some 9\<rparr>) [] [] True 0))) = []
   \<and> download_attempts (snd (download_file sample_env (sample_request ''c0ffee'')
      (sample_db (sample_link\<lparr>current_downloads := 1\<rparr>) [] [] True 0))) = []"
proof -
  have l: "get_share_link_by_token (sample_db (sample_link\<lparr>expires_at := Some 9\<rparr>) [] [] True 0)
             (lookup_now sample_env) ''c0ffee'' = []"
    "get_share_link_by_token (sample_db (sample_link\<lparr>current_downloads := 1\<rparr>) [] [] True 0)
             (lookup_now sample_env) ''c0ffee'' = []"
    "get_share_link_by_token (sample_db sample_link [] [] True 0)
             (lookup_now sample_env) ''deadbeef'' = []"
    by (simp_all add: get_share_link_by_token_def sample_db_def sample_link_def
          link_matches_def sample_env_def)
  have q: "http_method (sample_request t) \<noteq> ''OPTIONS''"
    "json (sample_request t) = Body (Str t)" for t
    by (simp_all add: sample_request_def)
  have d: "download_file sample_env (sample_request ''c0ffee'')
             (sample_db (sample_link\<lparr>expires_at := Some 9\<rparr>) [] [] True 0)
           = (Link_not_found, sample_db (sample_link\<lparr>expires_at := Some 9\<rparr>) [] [] True 0)"
    "download_file sample_env (sample_request ''c0ffee'')
             (sample_db (sample_link\<lparr>current_downloads := 1\<rparr>) [] [] True 0)
           = (Link_not_found, sample_db (sample_link\<lparr>current_downloads := 1\<rparr>) [] [] True 0)"
    "download_file sample_env (sample_request ''deadbeef'') (sample_db sample_link [] [] True 0)
           = (Link_not_found, sample_db sample_link [] [] True 0)"
    using l by (simp_all add: download_file_not_found [OF q])
  show ?thesis
    unfolding download_file_response_def d by (simp add: sample_db_def)
qed

lemma rpc_log_download_exception:
  assumes "consume_failed env = None" "inet_in env ip = Inr addr"
    "log_download db (consume_now env) (attempt_uuid env) (log_uuid env) tok ua addr
       = (Inl e, db1)"
  shows "rpc_log_download env db tok ua ip = (Inl (message e), db1)"
  using assms by (simp add: rpc_log_download_def)

lemma sample_request_reads:
  "http_method (sample_request t) \<noteq> ''OPTIONS''" "json (sample_request t) = Body (Str t)"
  "ip_address (sample_request t) = ''203.0.113.9''"
  "or_else (user_agent_header (sample_request t)) ''unknown'' = ''curl/8.5.0''"
  by (simp_all add: sample_request_def ip_address_def trim_def js_space_def or_else_def)

lemma sample_lookup:
  "get_share_link_by_token (sample_db sample_link ip t ok n) (lookup_now sample_env) ''c0ffee''
     = [view_of sample_link sample_file]"
  "\<not> no_longer_valid (js_now sample_env) (view_of sample_link sample_file)"
  "\<not> lookup_failed sample_env"
  by (simp_all add: get_share_link_by_token_def sample_db_def link_matches_def
        sample_link_def sample_file_def sample_env_def no_longer_valid_def is_expired_def
        limit_reached_def view_of_def)

lemma busy_lookup:
  "get_share_link_by_token (sample_db busy_link ip t ok n) (lookup_now sample_env) ''c0ffee''
     = [view_of busy_link sample_file]"
  "\<not> no_longer_valid (js_now sample_env) (view_of busy_link sample_file)"
  by (simp_all add: get_share_link_by_token_def sample_db_def link_matches_def busy_link_def
        sample_link_def sample_file_def sample_env_def no_longer_valid_def is_expired_def
        limit_reached_def view_of_def)

text \<open>
  The answers of the handler outside the consume call carry a fixed text each, or the
  signed URL and the file name; none of them carries a text of the store.
\<close>

lemma other_answers_fixed:
  assumes "\<forall>m. fst (download_file env req db) \<noteq> Log_failed m"
  shows "download_file_response env req db \<in>
           {\<lparr>status = 200, payload = Plain ''ok''\<rparr>,
            \<lparr>status = 400, payload = Error ''Token is required''\<rparr>,
            \<lparr>status = 404, payload = Error ''Invalid or expired link''\<rparr>,
            \<lparr>status = 403, payload = Error ''Link is no longer valid''\<rparr>,
            \<lparr>status = 500, payload = Error ''Failed to generate download URL''\<rparr>,
            \<lparr>status = 500, payload = Error ''Internal server error''\<rparr>}
         \<or> (\<exists>url name. download_file_response env req db
               = \<lparr>status = 200, payload = Download url name\<rparr>)"
  using assms unfolding download_file_response_def
  by (cases "fst (download_file env req db)") simp_all

text \<open>
  C8. The claim fails wherever the call of \<^verbatim>\<open>log_download\<close> fails: the handler
  answers 403 and puts the message of the store's error into the body as it is (or
  "Failed to log download" when the message is empty). So a rate-limited request is
  told which window tripped: the text is "Rate limit exceeded. Too many download
  attempts from this IP address." for the window of the address, and "Too many failed
  attempts for this link. Please try again later." for the window of the token. The
  other exceptions of the function, the failed cast of the address and any other
  failure of the call reach the client word for word as well.
\<close>

theorem log_error_passed_on:
  assumes "http_method req \<noteq> ''OPTIONS''" "json req = Body (Str tok)" "tok \<noteq> []"
    "\<not> lookup_failed env" "get_share_link_by_token db (lookup_now env) tok = v # vs"
    "\<not> no_longer_valid (js_now env) v"
  shows "(rpc_log_download env db tok (or_else (user_agent_header req) ''unknown'')
             (ip_address req) = (Inl m, db1) \<longrightarrow>
            download_file_response env req db
              = \<lparr>status = 403,
                 payload = Error (if m = [] then ''Failed to log download'' else m)\<rparr>)
     \<and> (consume_failed env = Some msg \<longrightarrow>
            download_file_response env req db
              = \<lparr>status = 403,
                 payload = Error (if msg = [] then ''Failed to log download'' else msg)\<rparr>)
     \<and> (consume_failed env = None \<and> inet_in env (ip_address req) = Inl msg \<longrightarrow>
            download_file_response env req db
              = \<lparr>status = 403,
                 payload = Error (if msg = [] then ''Failed to log download'' else msg)\<rparr>)
     \<and> (consume_failed env = None \<and> inet_in env (ip_address req) = Inr addr
          \<and> recent_attempts db (consume_now env) addr \<ge> 20 \<longrightarrow>
            download_file_response env req db
              = \<lparr>status = 403,
                 payload = Error
                   ''Rate limit exceeded. Too many download attempts from this IP address.''\<rparr>)
     \<and> (consume_failed env = None \<and> inet_in env (ip_address req) = Inr addr
          \<and> recent_attempts db (consume_now env) addr < 20
          \<and> recent_failures db (consume_now env) tok \<ge> 10 \<longrightarrow>
            download_file_response env req db
              = \<lparr>status = 403,
                 payload = Error
                   ''Too many failed attempts for this link. Please try again later.''\<rparr>)
     \<and> (consume_failed env = None \<and> inet_in env (ip_address req) = Inr addr
          \<and> fst (log_download db (consume_now env) (attempt_uuid env) (log_uuid env) tok
                 (or_else (user_agent_header req) ''unknown'') addr) = Inl e \<longrightarrow>
            download_file_response env req db = \<lparr>status = 403, payload = Error (message e)\<rparr>)
     \<and> ''Rate limit exceeded. Too many download attempts from this IP address.''
         \<noteq> ''Too many failed attempts for this link. Please try again later.''"
proof -
  let ?ua = "or_else (user_agent_header req) ''unknown''"
  let ?ip = "ip_address req"
  note c = download_file_consumes [OF assms]
  have gen: "download_file_response env req db
              = \<lparr>status = 403,
                 payload = Error (if x = [] then ''Failed to log download'' else x)\<rparr>"
    if "rpc_log_download env db tok ?ua ?ip = (Inl x, y)" for x y
    using that by (simp add: c download_file_response_def)
  have exc: "download_file_response env req db = \<lparr>status = 403, payload = Error (message x)\<rparr>"
    if "consume_failed env = None" "inet_in env ?ip = Inr addr"
      "fst (log_download db (consume_now env) (attempt_uuid env) (log_uuid env) tok ?ua addr)
         = Inl x" for x
  proof -
    from that(3) obtain y where
      "log_download db (consume_now env) (attempt_uuid env) (log_uuid env) tok ?ua addr
         = (Inl x, y)"
      by (metis prod.collapse)
    with that(1,2) have "rpc_log_download env db tok ?ua ?ip = (Inl (message x), y)"
      by (rule rpc_log_download_exception)
    from gen [OF this] show ?thesis by (cases x) simp_all
  qed
  have a: "rpc_log_download env db tok ?ua ?ip = (Inl m, db1) \<longrightarrow>
            download_file_response env req db
              = \<lparr>status = 403,
                 payload = Error (if m = [] then ''Failed to log download'' else m)\<rparr>"
    using gen by blast
  have b: "consume_failed env = Some msg \<longrightarrow>
            download_file_response env req db
              = \<lparr>status = 403,
                 payload = Error (if msg = [] then ''Failed to log download'' else msg)\<rparr>"
  proof
    assume "consume_failed env = Some msg"
    then have "rpc_log_download env db tok ?ua ?ip = (Inl msg, db)"
      by (simp add: rpc_log_download_def)
    then show "download_file_response env req db
              = \<lparr>status = 403,
                 payload = Error (if msg = [] then ''Failed to log download'' else msg)\<rparr>"
      by (rule gen)
  qed
  have g: "consume_failed env = None \<and> inet_in env ?ip = Inl msg \<longrightarrow>
            download_file_response env req db
              = \<lparr>status = 403,
                 payload = Error (if msg = [] then ''Failed to log download'' else msg)\<rparr>"
  proof
    assume "consume_failed env = None \<and> inet_in env ?ip = Inl msg"
    then have "rpc_log_download env db tok ?ua ?ip = (Inl msg, db)"
      by (simp add: rpc_log_download_def)
    then show "download_file_response env req db
              = \<lparr>status = 403,
                 payload = Error (if msg = [] then ''Failed to log download'' else msg)\<rparr>"
      by (rule gen)
  qed
  have i: "consume_failed env = None \<and> inet_in env ?ip = Inr addr
          \<and> recent_attempts db (consume_now env) addr \<ge> 20 \<longrightarrow>
            download_file_response env req db
              = \<lparr>status = 403,
                 payload = Error
                   ''Rate limit exceeded. Too many download attempts from this IP address.''\<rparr>"
  proof
    assume h: "consume_failed env = None \<and> inet_in env ?ip = Inr addr
          \<and> recent_attempts db (consume_now env) addr \<ge> 20"
    then have "fst (log_download db (consume_now env) (attempt_uuid env) (log_uuid env) tok
                 ?ua addr) = Inl Ip_rate_limit"
      by (simp add: log_download_eq)
    with h exc [of Ip_rate_limit] show "download_file_response env req db
              = \<lparr>status = 403,
                 payload = Error
                   ''Rate limit exceeded. Too many download attempts from this IP address.''\<rparr>"
      by simp
  qed
  have t: "consume_failed env = None \<and> inet_in env ?ip = Inr addr
          \<and> recent_attempts db (consume_now env) addr < 20
          \<and> recent_failures db (consume_now env) tok \<ge> 10 \<longrightarrow>
            download_file_response env req db
              = \<lparr>status = 403,
                 payload = Error
                   ''Too many failed attempts for this link. Please try again later.''\<rparr>"
  proof
    assume h: "consume_failed env = None \<and> inet_in env ?ip = Inr addr
          \<and> recent_attempts db (consume_now env) addr < 20
          \<and> recent_failures db (consume_now env) tok \<ge> 10"
    then have "fst (log_download db (consume_now env) (attempt_uuid env) (log_uuid env) tok
                 ?ua addr) = Inl Token_failure_limit"
      by (simp add: log_download_eq)
    with h exc [of Token_failure_limit] show "download_file_response env req db
              = \<lparr>status = 403,
                 payload = Error
                   ''Too many failed attempts for this link. Please try again later.''\<rparr>"
      by simp
  qed
  have x: "consume_failed env = None \<and> inet_in env ?ip = Inr addr
          \<and> fst (log_download db (consume_now env) (attempt_uuid env) (log_uuid env) tok
                 ?ua addr) = Inl e \<longrightarrow>
            download_file_response env req db = \<lparr>status = 403, payload = Error (message e)\<rparr>"
    using exc [of e] by blast
  have n: "''Rate limit exceeded. Too many download attempts from this IP address.''
         \<noteq> ''Too many failed attempts for this link. Please try again later.''"
    by simp
  show ?thesis
    apply (intro conjI)
    apply (rule a)
    apply (rule b)
    apply (rule g)
    apply (rule i)
    apply (rule t)
    apply (rule x)
    apply (rule n)
    done
qed

theorem log_error_passed_on_witness:
  "recent_attempts (sample_db busy_link ''203.0.113.9'' ''c0ffee'' True 20)
        (consume_now sample_env) ''203.0.113.9'' \<ge> 20
   \<and> download_file_response sample_env (sample_request ''c0ffee'')
        (sample_db busy_link ''203.0.113.9'' ''c0ffee'' True 20)
       = \<lparr>status = 403,
          payload = Error
            ''Rate limit exceeded. Too many download attempts from this IP address.''\<rparr>
   \<and> recent_attempts (sample_db sample_link ''198.51.100.4'' ''c0ffee'' False 10)
        (consume_now sample_env) ''203.0.113.9'' < 20
   \<and> recent_failures (sample_db sample_link ''198.51.100.4'' ''c0ffee'' False 10)
        (consume_now sample_env) ''c0ffee'' \<ge> 10
   \<and> download_file_response sample_env (sample_request ''c0ffee'')
        (sample_db sample_link ''198.51.100.4'' ''c0ffee'' False 10)
       = \<lparr>status = 403,
          payload = Error ''Too many failed attempts for this link. Please try again later.''\<rparr>
   \<and> fst (log_download (sample_db full_link [] [] True 0) (consume_now sample_env)
          (attempt_uuid sample_env) (log_uuid sample_env) ''c0ffee'' ''curl/8.5.0''
          ''203.0.113.9'') = Inl Integer_out_of_range
   \<and> download_file_response sample_env (sample_request ''c0ffee'')
        (sample_db full_link [] [] True 0)
       = \<lparr>status = 403, payload = Error ''integer out of range''\<rparr>
   \<and> consume_failed (sample_env\<lparr>consume_failed := Some ''canceling statement due to statement timeout''\<rparr>)
       = Some ''canceling statement due to statement timeout''
   \<and> download_file_response
        (sample_env\<lparr>consume_failed := Some ''canceling statement due to statement timeout''\<rparr>)
        (sample_request ''c0ffee'') (sample_db sample_link [] [] True 0)
       = \<lparr>status = 403, payload = Error ''canceling statement due to statement timeout''\<rparr>
   \<and> inet_in sample_env
        (ip_address ((sample_request ''c0ffee'')\<lparr>x_forwarded_for := Some ''unknown''\<rparr>))
       = Inl (''invalid input syntax for type inet: '' @ [CHR 0x22] @ ''unknown'' @ [CHR 0x22])
   \<and> download_file_response sample_env
        ((sample_request ''c0ffee'')\<lparr>x_forwarded_for := Some ''unknown''\<rparr>)
        (sample_db sample_link [] [] True 0)
       = \<lparr>status = 403,
          payload = Error (''invalid input syntax for type inet: '' @ [CHR 0x22] @ ''unknown''
                             @ [CHR 0x22])\<rparr>"
proof -
  let ?d1 = "sample_db busy_link ''203.0.113.9'' ''c0ffee'' True 20"
  let ?d2 = "sample_db sample_link ''198.51.100.4'' ''c0ffee'' False 10"
  let ?d3 = "sample_db sample_link [] [] True 0"
  let ?d4 = "sample_db full_link [] [] True 0"
  let ?env = "sample_env\<lparr>consume_failed := Some ''canceling statement due to statement timeout''\<rparr>"
  let ?req = "sample_request ''c0ffee''"
  have c: "consume_failed sample_env = None" "consume_now sample_env = 10"
    "inet_in sample_env (ip_address ?req) = Inr ''203.0.113.9''"
    by (simp_all add: sample_env_def sample_request_reads)
  have c3: "consume_failed ?env = Some ''canceling statement due to statement timeout''"
    by simp
  have "recent_attempts ?d1 10 ''203.0.113.9'' \<ge> 20" by code_simp
  then have n1: "recent_attempts ?d1 (consume_now sample_env) ''203.0.113.9'' \<ge> 20"
    by (simp add: c)
  have "recent_attempts ?d2 10 ''203.0.113.9'' < 20" by code_simp
  then have n2: "recent_attempts ?d2 (consume_now sample_env) ''203.0.113.9'' < 20"
    by (simp add: c)
  have "recent_failures ?d2 10 ''c0ffee'' \<ge> 10" by code_simp
  then have n3: "recent_failures ?d2 (consume_now sample_env) ''c0ffee'' \<ge> 10"
    by (simp add: c)
  have t: "''c0ffee'' \<noteq> []" by simp
  have l3: "get_share_link_by_token ?d3 (lookup_now ?env) ''c0ffee''
              = [view_of sample_link sample_file]"
    "\<not> no_longer_valid (js_now ?env) (view_of sample_link sample_file)"
    "\<not> lookup_failed ?env"
    by (simp_all add: get_share_link_by_token_def sample_db_def link_matches_def
          sample_link_def sample_file_def sample_env_def no_longer_valid_def is_expired_def
          limit_reached_def view_of_def)
  have l4: "get_share_link_by_token ?d4 (lookup_now sample_env) ''c0ffee''
              = [view_of full_link sample_file]"
    "\<not> no_longer_valid (js_now sample_env) (view_of full_link sample_file)"
    by (simp_all add: get_share_link_by_token_def sample_db_def link_matches_def
          full_link_def sample_link_def sample_file_def sample_env_def no_longer_valid_def
          is_expired_def limit_reached_def view_of_def)
  have o4: "fst (log_download ?d4 (consume_now sample_env) (attempt_uuid sample_env)
          (log_uuid sample_env) ''c0ffee'' ''curl/8.5.0'' ''203.0.113.9'')
        = Inl Integer_out_of_range"
    by code_simp
  from log_error_passed_on [OF sample_request_reads(1,2) t sample_lookup(3)
      busy_lookup(1) busy_lookup(2), where addr = "''203.0.113.9''"] c n1
  have a1: "download_file_response sample_env ?req ?d1
       = \<lparr>status = 403,
          payload = Error
            ''Rate limit exceeded. Too many download attempts from this IP address.''\<rparr>"
    by blast
  from log_error_passed_on [OF sample_request_reads(1,2) t sample_lookup(3)
      sample_lookup(1) sample_lookup(2), where addr = "''203.0.113.9''"] c n2 n3
  have a2: "download_file_response sample_env ?req ?d2
       = \<lparr>status = 403,
          payload = Error ''Too many failed attempts for this link. Please try again later.''\<rparr>"
    by blast
  from log_error_passed_on [OF sample_request_reads(1,2) t l3(3) l3(1) l3(2),
      where msg = "''canceling statement due to statement timeout''"] c3
  have a3: "download_file_response ?env ?req ?d3
       = \<lparr>status = 403, payload = Error ''canceling statement due to statement timeout''\<rparr>"
    by simp
  from log_error_passed_on [OF sample_request_reads(1,2) t sample_lookup(3) l4(1) l4(2),
      where addr = "''203.0.113.9''" and e = Integer_out_of_range] c o4
  have a4: "download_file_response sample_env ?req ?d4
       = \<lparr>status = 403, payload = Error ''integer out of range''\<rparr>"
    by (simp add: sample_request_reads)
  let ?req5 = "(sample_request ''c0ffee'')\<lparr>x_forwarded_for := Some ''unknown''\<rparr>"
  have q5: "http_method ?req5 \<noteq> ''OPTIONS''" "json ?req5 = Body (Str ''c0ffee'')"
    by (simp_all add: sample_request_def)
  have i5: "inet_in sample_env (ip_address ?req5)
       = Inl (''invalid input syntax for type inet: '' @ [CHR 0x22] @ ''unknown'' @ [CHR 0x22])"
    by (simp add: sample_request_def ip_address_def trim_def js_space_def sample_env_def)
  from log_error_passed_on [OF q5 t sample_lookup(3) sample_lookup(1) sample_lookup(2),
      where msg = "''invalid input syntax for type inet: '' @ [CHR 0x22] @ ''unknown''
                     @ [CHR 0x22]"] c(1) i5
  have a5: "download_file_response sample_env ?req5 ?d3
       = \<lparr>status = 403,
          payload = Error (''invalid input syntax for type inet: '' @ [CHR 0x22] @ ''unknown''
                             @ [CHR 0x22])\<rparr>"
    by simp
  from n1 a1 n2 n3 a2 o4 a4 c3 a3 i5 a5 show ?thesis by blast
qed

section \<open>Several calls: one after the other, and at once\<close>

lemma call_split: "call_writes db c (call_reads db c) = call_log_download db c"
  by (simp add: call_writes_def call_reads_def call_log_download_def log_download_def
        log_download_body_def split: sum.splits)

lemma call_is_operation:
  "snd (call_log_download db c)
     = perform (Log_download (c_now c) (c_attempt_id c) (c_log_id c) (c_token c)
         (c_user_agent c) (c_ip c)) db"
  by (simp add: call_log_download_def)

lemma call_keeps_keys:
  assumes "primary_key db" "token_unique db"
  shows "primary_key (snd (call_log_download db c)) \<and> token_unique (snd (call_log_download db c))"
  using perform_keys [of db] assms
  unfolding call_is_operation primary_key_def token_unique_def by blast

lemma successes_Cons:
  "successes tok (c # cs) (r # rs) = counted tok c r + successes tok cs rs"
  by (simp add: successes_def counted_def)

lemma attempts_Cons:
  "attempts tok (c # cs) = (if c_token c = tok then 1 else 0) + attempts tok cs"
  by (simp add: attempts_def)

lemma counted_le: "counted tok c r \<le> (if c_token c = tok then 1 else 0)"
  by (simp add: counted_def)

lemma log_download_Inr:
  assumes "fst (log_download db now a l t ua ip) = Inr v"
  shows "\<exists>r0 \<in> set (share_links db). link_matches now t r0
           \<and> share_links (snd (log_download db now a l t ua ip)) =
               map (increment_row now (sl_id r0)) (share_links db)"
proof -
  from assms have ok: "\<not> recent_attempts db now ip \<ge> 20" "\<not> recent_failures db now t \<ge> 10"
    by (auto simp: log_download_eq split: if_splits)
  with assms obtain k where k: "select_link_id db now t = Some k"
    by (cases "select_link_id db now t") (auto simp: log_download_eq)
  then obtain r0 where r0: "r0 \<in> set (share_links db)" "link_matches now t r0" "sl_id r0 = k"
    using select_link_id_Some by blast
  from assms ok k
  have "\<not> list_ex (\<lambda>r. sl_id r = k \<and> current_downloads r + 1 > int4_max) (share_links db)"
    by (auto simp: log_download_eq increment_after_inserts split: if_splits)
  with ok k r0(3)
  have "share_links (snd (log_download db now a l t ua ip)) =
               map (increment_row now (sl_id r0)) (share_links db)"
    by (simp add: log_download_eq increment_after_inserts)
  with r0 show ?thesis by blast
qed

text \<open>One call, seen from one link.\<close>

lemma call_step:
  assumes pk: "primary_key db" and tu: "token_unique db" and l: "l \<in> set (share_links db)"
  shows "\<exists>l1 \<in> set (share_links (snd (call_log_download db c))).
           sl_id l1 = sl_id l \<and> token l1 = token l \<and> max_downloads l1 = max_downloads l
           \<and> is_active l1 = is_active l \<and> expires_at l1 = expires_at l
           \<and> current_downloads l1
               = current_downloads l + int (counted (token l) c (fst (call_log_download db c)))
           \<and> (counted (token l) c (fst (call_log_download db c)) = 1 \<longrightarrow>
                 link_matches (c_now c) (token l) l)"
proof (cases "fst (call_log_download db c)")
  case (Inl e)
  then have "snd (call_log_download db c) = db"
    using log_download_rolls_back [of db "c_now c" "c_attempt_id c" "c_log_id c" "c_token c"
        "c_user_agent c" "c_ip c"]
    by (auto simp: call_log_download_def)
  with Inl l show ?thesis by (auto simp: counted_def succeeded_def)
next
  case (Inr v)
  let ?now = "c_now c"
  from Inr obtain r0 where r0: "r0 \<in> set (share_links db)" "link_matches ?now (c_token c) r0"
      and links: "share_links (snd (call_log_download db c))
                 = map (increment_row ?now (sl_id r0)) (share_links db)"
    unfolding call_log_download_def using log_download_Inr by blast
  let ?l1 = "increment_row ?now (sl_id r0) l"
  have in1: "?l1 \<in> set (share_links (snd (call_log_download db c)))"
    unfolding links using l by simp
  have t0: "token r0 = c_token c" using r0(2) by (simp add: link_matches_def)
  show ?thesis
  proof (cases "c_token c = token l")
    case True
    with t0 have "token r0 = token l" by simp
    with tu r0(1) l have "r0 = l"
      by (auto simp: token_unique_def distinct_map dest: inj_onD)
    with r0 True have "link_matches ?now (token l) l" "sl_id r0 = sl_id l" by simp_all
    with True Inr in1 show ?thesis
      by (intro bexI [of _ ?l1]) (simp_all add: counted_def succeeded_def increment_row_def)
  next
    case False
    with t0 have "r0 \<noteq> l" by auto
    with pk r0(1) l have "sl_id r0 \<noteq> sl_id l"
      unfolding primary_key_def using pk_same_row by blast
    then have "?l1 = l" by (simp add: increment_row_def)
    with False in1 show ?thesis
      by (intro bexI [of _ l]) (simp_all add: counted_def)
  qed
qed

text \<open>
  One call for the token of a link with a limit, when no window trips and the link is
  active and not expired: it succeeds if and only if the counter is below the limit.
\<close>

lemma call_exact:
  assumes pk: "primary_key db" and tu: "token_unique db" and l: "l \<in> set (share_links db)"
    and m: "max_downloads l = Some N" and n: "N \<le> int4_max" and act: "is_active l"
    and ex: "\<forall>e. expires_at l = Some e \<longrightarrow> c_now c < e"
    and tok: "c_token c = token l"
    and nr: "fst (call_log_download db c) \<noteq> Inl Ip_rate_limit"
            "fst (call_log_download db c) \<noteq> Inl Token_failure_limit"
  shows "counted (token l) c (fst (call_log_download db c))
           = (if current_downloads l < N then 1 else 0)"
proof -
  let ?now = "c_now c"
  from nr have w: "recent_attempts db ?now (c_ip c) < 20" "recent_failures db ?now (c_token c) < 10"
    by (auto simp: call_log_download_def log_download_eq split: if_splits)
  show ?thesis
  proof (cases "current_downloads l < N")
    case True
    with m act ex tok have lm: "link_matches ?now (c_token c) l"
      by (auto simp: link_matches_def split: option.splits)
    from True n have room: "current_downloads l < int4_max" by simp
    have "fst (call_log_download db c) = Inr (c_log_id c)"
      unfolding call_log_download_def
      by (subst log_download_usable [OF pk tu l lm room w]) simp
    with True tok show ?thesis by (simp add: counted_def succeeded_def)
  next
    case False
    have "\<not> link_matches ?now (c_token c) x" if "x \<in> set (share_links db)" for x
    proof
      assume lm: "link_matches ?now (c_token c) x"
      then have "token x = token l" using tok by (simp add: link_matches_def)
      with tu that l have "x = l"
        by (auto simp: token_unique_def distinct_map dest: inj_onD)
      with lm m False show False by (simp add: link_matches_def)
    qed
    then have "select_link_id db ?now (c_token c) = None"
      by (simp add: select_link_id_None)
    then have "fst (call_log_download db c) = Inl Invalid_link"
      using w by (simp add: call_log_download_def log_download_eq)
    with False show ?thesis by (simp add: counted_def succeeded_def)
  qed
qed

lemma run_serial_bound:
  assumes "primary_key db" "token_unique db" "l \<in> set (share_links db)"
    "max_downloads l = Some N" "current_downloads l \<le> N" "run_serial db cs = (rs, db')"
  shows "\<exists>l' \<in> set (share_links db').
           sl_id l' = sl_id l \<and> token l' = token l \<and> max_downloads l' = Some N
           \<and> current_downloads l' \<le> N
           \<and> current_downloads l' = current_downloads l + int (successes (token l) cs rs)
           \<and> successes (token l) cs rs \<le> attempts (token l) cs"
  using assms
proof (induction cs arbitrary: db l rs db')
  case Nil
  then show ?case by (auto simp: successes_def attempts_def)
next
  case (Cons c cs)
  obtain r db1 where c1: "call_log_download db c = (r, db1)" by (cases "call_log_download db c")
  obtain rs1 where run: "run_serial db1 cs = (rs1, db')" and rs: "rs = r # rs1"
    using Cons.prems(6) c1 by (auto split: prod.splits)
  from call_keeps_keys [OF Cons.prems(1,2), of c] c1
  have keys: "primary_key db1" "token_unique db1" by simp_all
  from call_step [OF Cons.prems(1,2,3), of c] c1
  obtain l1 where l1: "l1 \<in> set (share_links db1)" "sl_id l1 = sl_id l" "token l1 = token l"
      "max_downloads l1 = max_downloads l"
      "current_downloads l1 = current_downloads l + int (counted (token l) c r)"
      "counted (token l) c r = 1 \<longrightarrow> link_matches (c_now c) (token l) l"
    by auto
  have le1: "current_downloads l1 \<le> N"
  proof (cases "counted (token l) c r = 1")
    case True
    with l1(6) have "link_matches (c_now c) (token l) l" by simp
    then have "current_downloads l < N" using Cons.prems(4) by (simp add: link_matches_def)
    with l1(5) True show ?thesis by simp
  next
    case False
    then have "counted (token l) c r = 0" by (simp add: counted_def split: if_splits)
    with l1(5) Cons.prems(5) show ?thesis by simp
  qed
  from Cons.IH [OF keys l1(1) _ le1 run] l1(4) Cons.prems(4)
  obtain l' where l': "l' \<in> set (share_links db')" "sl_id l' = sl_id l1" "token l' = token l1"
      "max_downloads l' = Some N" "current_downloads l' \<le> N"
      "current_downloads l' = current_downloads l1 + int (successes (token l1) cs rs1)"
      "successes (token l1) cs rs1 \<le> attempts (token l1) cs"
    by auto
  have "current_downloads l' = current_downloads l + int (successes (token l) (c # cs) rs)"
    using l'(6) l1(3,5) rs by (simp add: successes_Cons)
  moreover have "successes (token l) (c # cs) rs \<le> attempts (token l) (c # cs)"
    using l'(7) l1(3) rs counted_le [of "token l" c r]
    by (simp add: successes_Cons attempts_Cons split: if_splits)
  ultimately show ?case using l' l1(2,3) by (intro bexI [of _ l']) simp_all
qed

lemma run_serial_exact:
  assumes "primary_key db" "token_unique db" "l \<in> set (share_links db)"
    "max_downloads l = Some N" "current_downloads l \<le> N" "N \<le> int4_max" "is_active l"
    "\<forall>c \<in> set cs. c_token c = token l \<longrightarrow> (\<forall>e. expires_at l = Some e \<longrightarrow> c_now c < e)"
    "run_serial db cs = (rs, db')"
    "\<forall>(c, r) \<in> set (zip cs rs). c_token c = token l \<longrightarrow>
        r \<noteq> Inl Ip_rate_limit \<and> r \<noteq> Inl Token_failure_limit"
  shows "int (successes (token l) cs rs)
           = min (N - current_downloads l) (int (attempts (token l) cs))"
  using assms
proof (induction cs arbitrary: db l rs db')
  case Nil
  then show ?case by (auto simp: successes_def attempts_def)
next
  case (Cons c cs)
  obtain r db1 where c1: "call_log_download db c = (r, db1)" by (cases "call_log_download db c")
  obtain rs1 where run: "run_serial db1 cs = (rs1, db')" and rs: "rs = r # rs1"
    using Cons.prems(9) c1 by (auto split: prod.splits)
  from call_keeps_keys [OF Cons.prems(1,2), of c] c1
  have keys: "primary_key db1" "token_unique db1" by simp_all
  from call_step [OF Cons.prems(1,2,3), of c] c1
  obtain l1 where l1: "l1 \<in> set (share_links db1)" "token l1 = token l"
      "max_downloads l1 = max_downloads l" "is_active l1 = is_active l"
      "expires_at l1 = expires_at l"
      "current_downloads l1 = current_downloads l + int (counted (token l) c r)"
    by auto
  have cnt: "counted (token l) c r
               = (if c_token c = token l \<and> current_downloads l < N then 1 else 0)"
  proof (cases "c_token c = token l")
    case True
    from Cons.prems(10) rs True
    have nr: "fst (call_log_download db c) \<noteq> Inl Ip_rate_limit"
      "fst (call_log_download db c) \<noteq> Inl Token_failure_limit"
      by (simp_all add: c1)
    from Cons.prems(8) True have ex: "\<forall>e. expires_at l = Some e \<longrightarrow> c_now c < e" by simp
    from call_exact [OF Cons.prems(1,2,3,4,6,7) ex True nr] True c1 show ?thesis by simp
  next
    case False
    then show ?thesis by (simp add: counted_def)
  qed
  have le1: "current_downloads l1 \<le> N"
    using l1(6) cnt Cons.prems(5) by (simp split: if_splits)
  have ex1: "\<forall>c \<in> set cs. c_token c = token l1 \<longrightarrow>
               (\<forall>e. expires_at l1 = Some e \<longrightarrow> c_now c < e)"
    using Cons.prems(8) l1(2,5) by simp
  have nr1: "\<forall>(c, r) \<in> set (zip cs rs1). c_token c = token l1 \<longrightarrow>
        r \<noteq> Inl Ip_rate_limit \<and> r \<noteq> Inl Token_failure_limit"
    using Cons.prems(10) rs l1(2) by simp
  have m1: "max_downloads l1 = Some N" using l1(3) Cons.prems(4) by simp
  have a1: "is_active l1" using l1(4) Cons.prems(7) by simp
  from Cons.IH [OF keys l1(1) m1 le1 Cons.prems(6) a1 ex1 run nr1]
  have ih: "int (successes (token l) cs rs1)
           = min (N - current_downloads l1) (int (attempts (token l) cs))"
    using l1(2) by simp
  show ?case
    using ih l1(6) cnt rs Cons.prems(5)
    by (simp add: successes_Cons attempts_Cons split: if_splits)
qed

text \<open>
  C1, as the code has it. For calls of \<^verbatim>\<open>log_download\<close> made one after the other
  on a store whose link \<open>l\<close> has \<^verbatim>\<open>max_downloads = N\<close> and a counter at most \<open>N\<close>:
  the counter of the link never exceeds \<open>N\<close>, and it grows by the number of calls for
  the link's token that succeeded. When the link is active, has not expired at any of
  the calls, and none of the calls for it is turned away by a rate-limit window,
  exactly the least of \<open>N\<close> less the first count and the number of attempts succeed
  (with a first count of 0, the least of \<open>N\<close> and the number of attempts). Two calls
  on a usable link with limit 1 and count 0, the first of them not rate-limited, end
  in one success and then one rejection.
\<close>

theorem serial_downloads_within_limit:
  assumes "primary_key db" "token_unique db" "l \<in> set (share_links db)"
    "max_downloads l = Some N" "current_downloads l \<le> N" "run_serial db cs = (rs, db')"
  shows "(\<exists>l' \<in> set (share_links db').
            sl_id l' = sl_id l \<and> token l' = token l \<and> max_downloads l' = Some N
            \<and> current_downloads l' \<le> N
            \<and> current_downloads l' = current_downloads l + int (successes (token l) cs rs))
     \<and> int (successes (token l) cs rs)
          \<le> min (N - current_downloads l) (int (attempts (token l) cs))
     \<and> (N \<le> 2147483647 \<and> is_active l
          \<and> (\<forall>c \<in> set cs. c_token c = token l \<longrightarrow>
                (\<forall>e. expires_at l = Some e \<longrightarrow> c_now c < e))
          \<and> (\<forall>(c, r) \<in> set (zip cs rs). c_token c = token l \<longrightarrow>
                r \<noteq> Inl Ip_rate_limit \<and> r \<noteq> Inl Token_failure_limit)
        \<longrightarrow> int (successes (token l) cs rs)
              = min (N - current_downloads l) (int (attempts (token l) cs)))
     \<and> (N = 1 \<and> current_downloads l = 0 \<and> cs = [a, b]
          \<and> c_token a = token l \<and> c_token b = token l
          \<and> is_active l \<and> (\<forall>e. expires_at l = Some e \<longrightarrow> c_now a < e)
          \<and> recent_attempts db (c_now a) (c_ip a) < 20
          \<and> recent_failures db (c_now a) (token l) < 10
        \<longrightarrow> (\<exists>e. rs = [Inr (c_log_id a), Inl e]))"
proof -
  from run_serial_bound [OF assms]
  obtain l' where l': "l' \<in> set (share_links db')" "sl_id l' = sl_id l" "token l' = token l"
      "max_downloads l' = Some N" "current_downloads l' \<le> N"
      "current_downloads l' = current_downloads l + int (successes (token l) cs rs)"
      "successes (token l) cs rs \<le> attempts (token l) cs"
    by blast
  have bound: "int (successes (token l) cs rs)
          \<le> min (N - current_downloads l) (int (attempts (token l) cs))"
    using l'(5,6,7) by simp
  have exact: "int (successes (token l) cs rs)
              = min (N - current_downloads l) (int (attempts (token l) cs))"
    if h: "N \<le> 2147483647 \<and> is_active l
          \<and> (\<forall>c \<in> set cs. c_token c = token l \<longrightarrow>
                (\<forall>e. expires_at l = Some e \<longrightarrow> c_now c < e))
          \<and> (\<forall>(c, r) \<in> set (zip cs rs). c_token c = token l \<longrightarrow>
                r \<noteq> Inl Ip_rate_limit \<and> r \<noteq> Inl Token_failure_limit)"
  proof (rule run_serial_exact [OF assms(1-5) _ _ _ assms(6)])
    show "N \<le> int4_max" using h by (simp add: int4_max_def)
    show "is_active l" using h by simp
    show "\<forall>c \<in> set cs. c_token c = token l \<longrightarrow>
            (\<forall>e. expires_at l = Some e \<longrightarrow> c_now c < e)" using h by blast
    show "\<forall>(c, r) \<in> set (zip cs rs). c_token c = token l \<longrightarrow>
            r \<noteq> Inl Ip_rate_limit \<and> r \<noteq> Inl Token_failure_limit" using h by blast
  qed
  have two: "\<exists>e. rs = [Inr (c_log_id a), Inl e]"
    if h: "N = 1 \<and> current_downloads l = 0 \<and> cs = [a, b]
          \<and> c_token a = token l \<and> c_token b = token l
          \<and> is_active l \<and> (\<forall>e. expires_at l = Some e \<longrightarrow> c_now a < e)
          \<and> recent_attempts db (c_now a) (c_ip a) < 20
          \<and> recent_failures db (c_now a) (token l) < 10"
  proof -
    from h assms(4) have m: "link_matches (c_now a) (c_token a) l"
      by (auto simp: link_matches_def split: option.splits)
    from h have w: "recent_attempts db (c_now a) (c_ip a) < 20"
      "recent_failures db (c_now a) (c_token a) < 10" by simp_all
    from h have room: "current_downloads l < int4_max" by (simp add: int4_max_def)
    have first: "fst (call_log_download db a) = Inr (c_log_id a)"
      unfolding call_log_download_def
      by (subst log_download_usable [OF assms(1,2,3) m room w]) simp
    obtain r2 where rs: "rs = [fst (call_log_download db a), r2]"
      using assms(6) h by (auto split: prod.splits)
    have "successes (token l) cs rs = 1 + counted (token l) b r2"
      using h rs first by (simp add: successes_Cons counted_def succeeded_def successes_def)
    with bound h have "counted (token l) b r2 = 0" by simp
    with h have "\<not> succeeded r2" by (simp add: counted_def split: if_splits)
    then obtain e where "r2 = Inl e" by (cases r2) (simp_all add: succeeded_def)
    with rs first show ?thesis by simp
  qed
  from l' bound exact two show ?thesis by blast
qed

theorem serial_downloads_within_limit_witness:
  "primary_key (sample_db sample_link [] [] True 0)
   \<and> token_unique (sample_db sample_link [] [] True 0)
   \<and> sample_link \<in> set (share_links (sample_db sample_link [] [] True 0))
   \<and> max_downloads sample_link = Some 1 \<and> current_downloads sample_link = 0
   \<and> is_active sample_link \<and> expires_at sample_link = None
   \<and> c_token (sample_call 0) = token sample_link
   \<and> c_token (sample_call 1) = token sample_link
   \<and> recent_attempts (sample_db sample_link [] [] True 0) (c_now (sample_call 0))
         (c_ip (sample_call 0)) < 20
   \<and> recent_failures (sample_db sample_link [] [] True 0) (c_now (sample_call 0))
         (token sample_link) < 10
   \<and> fst (run_serial (sample_db sample_link [] [] True 0) [sample_call 0, sample_call 1])
       = [Inr 300, Inl Invalid_link]
   \<and> (\<exists>e. fst (run_serial (sample_db sample_link [] [] True 0)
                 [sample_call 0, sample_call 1])
             = [Inr (c_log_id (sample_call 0)), Inl e])
   \<and> map current_downloads
        (share_links (snd (run_serial (sample_db sample_link [] [] True 0)
           [sample_call 0, sample_call 1]))) = [1]
   \<and> int (successes (token sample_link) [sample_call 0, sample_call 1]
             [Inr 300, Inl Invalid_link])
        = min (1 - current_downloads sample_link)
              (int (attempts (token sample_link) [sample_call 0, sample_call 1]))"
proof -
  let ?d = "sample_db sample_link [] [] True 0"
  let ?cs = "[sample_call 0, sample_call 1]"
  have k: "primary_key ?d" "token_unique ?d" "sample_link \<in> set (share_links ?d)"
    by (simp_all add: primary_key_def token_unique_def sample_db_def)
  have m: "max_downloads sample_link = Some 1" "current_downloads sample_link = 0"
    "is_active sample_link" "expires_at sample_link = None"
    "c_token (sample_call 0) = token sample_link"
    "c_token (sample_call 1) = token sample_link"
    by (simp_all add: sample_link_def sample_call_def)
  have w: "recent_attempts ?d (c_now (sample_call 0)) (c_ip (sample_call 0)) < 20"
    "recent_failures ?d (c_now (sample_call 0)) (token sample_link) < 10"
    by (simp_all add: recent_attempts_def recent_failures_def sample_db_def)
  have le: "current_downloads sample_link \<le> 1" by (simp add: sample_link_def)
  have f: "fst (run_serial ?d ?cs) = [Inr 300, Inl Invalid_link]" by code_simp
  have c: "map current_downloads (share_links (snd (run_serial ?d ?cs))) = [1]" by code_simp
  have run: "run_serial ?d ?cs = ([Inr 300, Inl Invalid_link], snd (run_serial ?d ?cs))"
    using f by (metis prod.collapse)
  have nr: "\<forall>(c, r) \<in> set (zip ?cs [Inr 300, Inl Invalid_link]).
              c_token c = token sample_link \<longrightarrow>
              r \<noteq> Inl Ip_rate_limit \<and> r \<noteq> Inl Token_failure_limit"
    by simp
  have ex: "\<forall>c \<in> set ?cs. c_token c = token sample_link \<longrightarrow>
              (\<forall>e. expires_at sample_link = Some e \<longrightarrow> c_now c < e)"
    by (simp add: m)
  note t = serial_downloads_within_limit [OF k m(1) le run,
      where a = "sample_call 0" and b = "sample_call 1"]
  from t m(3) ex nr
  have b: "int (successes (token sample_link) ?cs [Inr 300, Inl Invalid_link])
        = min (1 - current_downloads sample_link) (int (attempts (token sample_link) ?cs))"
    by simp
  from t m w have "\<exists>e. [Inr 300, Inl Invalid_link] = [Inr (c_log_id (sample_call 0)), Inl e]"
    by simp
  then have e: "\<exists>e. fst (run_serial ?d ?cs) = [Inr (c_log_id (sample_call 0)), Inl e]"
    unfolding f .
  from k m w f e c b show ?thesis by blast
qed

text \<open>
  The claim C1 as it is written fails in these ways. Two calls at once: both read the
  link with count 0 below its limit 1, both write, both return a log id, and the count
  ends at 2. And in calls one after the other fewer than the least of the limit and the
  attempts may succeed: of 21 calls from one address within the hour, on a link with
  limit 25, the first 20 succeed and the 21st is turned away by the rate limiter; a
  call on a link that is not active, and a call on a link that has expired, are
  rejected though the limit is not reached.
\<close>

theorem concurrent_downloads_counterexample:
  "map max_downloads (share_links (sample_db sample_link [] [] True 0)) = [Some 1]
   \<and> map current_downloads (share_links (sample_db sample_link [] [] True 0)) = [0]
   \<and> fst (run_overlapped (sample_db sample_link [] [] True 0) (sample_call 0) (sample_call 1))
       = (Inr 300, Inr 301)
   \<and> map current_downloads
        (share_links (snd (run_overlapped (sample_db sample_link [] [] True 0)
           (sample_call 0) (sample_call 1)))) = [2]
   \<and> fst (run_serial (sample_db (sample_link\<lparr>max_downloads := Some 25\<rparr>) [] [] True 0)
        (map sample_call [0..<21]))
       = map (\<lambda>i. Inr (300 + i)) [0..<20] @ [Inl Ip_rate_limit]
   \<and> attempts ''c0ffee'' (map sample_call [0..<21]) = 21
   \<and> successes ''c0ffee'' (map sample_call [0..<21])
        (map (\<lambda>i. Inr (300 + i)) [0..<20] @ [Inl Ip_rate_limit]) = 20
   \<and> fst (run_serial (sample_db (sample_link\<lparr>is_active := False\<rparr>) [] [] True 0)
        [sample_call 0]) = [Inl Invalid_link]
   \<and> fst (run_serial (sample_db (sample_link\<lparr>expires_at := Some 9\<rparr>) [] [] True 0)
        [sample_call 0]) = [Inl Invalid_link]"
  by (intro conjI; code_simp)

end
